(* ===== verification/Prelude.thy ===== *)
theory Prelude
  imports Main "HOL-Library.Word"
begin

text \<open>
  Shared vocabulary of the ST7789 development: the C integer types of the driver as
  machine words, the big-endian split of a 16-bit value into two bytes (the wire
  format of every coordinate and colour), and the generic lemmas on words and lists
  that the component theories use.
\<close>

unbundle bit_operations_syntax

section \<open>C integer types\<close>

type_synonym byte = "8 word"   \<comment> \<open>\<open>uint8_t\<close>\<close>
type_synonym u16 = "16 word"   \<comment> \<open>\<open>uint16_t\<close>\<close>
type_synonym i16 = "16 word"   \<comment> \<open>\<open>int16_t\<close>, read with \<open>sint\<close>\<close>
type_synonym u32 = "32 word"   \<comment> \<open>\<open>uint32_t\<close>\<close>

named_theorems st7789_defs "the numeric values of the driver's macros"
named_theorems trace_simps "the events an operation appends to the trace"

section \<open>Big-endian bytes of a 16-bit value\<close>

text \<open>
  \<open>value >> 8\<close> and \<open>value & 0xFF\<close>, converted to \<open>uint8_t\<close>: the two bytes
  the driver puts on the wire for a 16-bit value, high byte first.
\<close>

definition hi_byte :: "u16 \<Rightarrow> byte" where
  "hi_byte w = ucast (drop_bit 8 w)"

definition lo_byte :: "u16 \<Rightarrow> byte" where
  "lo_byte w = ucast (w AND 0xFF)"

definition be16 :: "u16 \<Rightarrow> byte list" where
  "be16 w = [hi_byte w, lo_byte w]"

text \<open>How the controller reassembles a 16-bit value from its two bytes.\<close>

definition word16_of_bytes :: "byte \<Rightarrow> byte \<Rightarrow> u16" where
  "word16_of_bytes h l = push_bit 8 (ucast h) OR ucast l"

lemma ff_eq_mask8: "(0xFF :: 'a::len word) = mask 8"
  by (simp add: mask_eq_exp_minus_1)

lemma word16_of_bytes_split [simp]: "word16_of_bytes (hi_byte w) (lo_byte w) = w"
  unfolding word16_of_bytes_def hi_byte_def lo_byte_def
  by (rule bit_word_eqI) (auto simp: bit_simps ff_eq_mask8 dest: bit_imp_le_length)

lemma hi_byte_word16_of_bytes [simp]: "hi_byte (word16_of_bytes h l) = h"
  unfolding word16_of_bytes_def hi_byte_def
  by (rule bit_word_eqI) (auto simp: bit_simps dest: bit_imp_le_length)

lemma lo_byte_word16_of_bytes [simp]: "lo_byte (word16_of_bytes h l) = l"
  unfolding word16_of_bytes_def lo_byte_def
  by (rule bit_word_eqI) (auto simp: bit_simps ff_eq_mask8 dest: bit_imp_le_length)

lemma length_be16 [simp]: "length (be16 w) = 2"
  by (simp add: be16_def)

lemma be16_inject: "be16 a = be16 b \<longleftrightarrow> a = b"
  by (metis be16_def list.inject word16_of_bytes_split)

section \<open>Words\<close>

text \<open>A counter below some bound steps up without wrapping: the progress fact of every
  \<open>for (i = 0; i < n; i++)\<close> loop over an unsigned counter.\<close>

lemma unat_succ_less: "j < (w::'a::len word) \<Longrightarrow> unat (j + 1) = Suc (unat j)"
proof -
  assume "j < w"
  then have "unat j < unat w" by (simp add: word_less_nat_alt)
  moreover have "unat w < 2 ^ LENGTH('a)" by (rule unsigned_less)
  moreover have "unat (1 :: 'a word) = 1" by simp
  ultimately have "unat j + unat (1 :: 'a word) < 2 ^ LENGTH('a)" by linarith
  then have "unat (j + 1) = unat j + unat (1 :: 'a word)" by (rule unat_add_lem [THEN iffD1])
  then show ?thesis by simp
qed

lemma unat_u16_less: "unat (x :: u16) < 65536"
proof -
  have "unat x < 2 ^ LENGTH(16)" by (rule unsigned_less)
  then show ?thesis by simp
qed

lemma unat_measure_less: "j < (w::'a::len word) \<Longrightarrow> unat w - unat (j + 1) < unat w - unat j"
  using unat_succ_less [of j w] by (simp add: word_less_nat_alt)

text \<open>\<open>x + w - 1\<close> on \<open>uint16_t\<close> operands, the far edge of a rectangle, does not
  wrap when the rectangle fits below \<open>2 ^ 16\<close>.\<close>

lemma unat_add_minus_one:
  assumes "0 < unat w" "unat x + unat w \<le> 2 ^ LENGTH('a)"
  shows "unat (x + w - 1 :: 'a::len word) = unat x + unat w - 1"
proof -
  have w: "w \<noteq> 0" using assms(1) by auto
  have u: "unat (w - 1) = unat w - 1" using w by (simp add: unat_minus_one)
  have "unat x + unat (w - 1) < 2 ^ LENGTH('a)" using assms u by simp
  then have "unat (x + (w - 1)) = unat x + unat (w - 1)" by (rule unat_add_lem [THEN iffD1])
  then show ?thesis using u assms(1) by (simp add: add_diff_eq)
qed

section \<open>Signed 16-bit arithmetic\<close>

text \<open>
  An \<open>int16_t\<close> assignment stores its \<open>int\<close> value modulo \<open>2 ^ 16\<close>; read back
  with \<open>sint\<close>, the value is unchanged exactly when it lies in \<open>[-32768, 32767]\<close>.
\<close>

lemma sint_i16_range: "- 32768 \<le> sint (x::i16) \<and> sint x < 32768"
  using sint_greater_eq [of x] sint_less [of x] by simp

lemma sint_of_int_i16: "- 32768 \<le> k \<Longrightarrow> k < 32768 \<Longrightarrow> sint (word_of_int k :: i16) = k"
  by (simp add: sint_sbintrunc' signed_take_bit_int_eq_self)

lemma sint_i16_succ: "sint (x::i16) < 32767 \<Longrightarrow> sint (x + 1) = sint x + 1"
proof -
  assume "sint x < 32767"
  moreover have "x + 1 = word_of_int (sint x + 1)" by simp
  ultimately show ?thesis using sint_i16_range [of x] by (simp only:) (rule sint_of_int_i16; simp)
qed

lemma sint_i16_pred: "- 32768 < sint (y::i16) \<Longrightarrow> sint (y - 1) = sint y - 1"
proof -
  assume "- 32768 < sint y"
  moreover have "y - 1 = word_of_int (sint y - 1)" by simp
  ultimately show ?thesis using sint_i16_range [of y] by (simp only:) (rule sint_of_int_i16; simp)
qed

lemma sint_32767: "sint (r::i16) = 32767 \<longleftrightarrow> r = 32767"
proof
  assume "sint r = 32767"
  then have "word_of_int (sint r) = (word_of_int 32767 :: i16)" by simp
  then show "r = 32767" by simp
qed simp

text \<open>A \<open>uint16_t\<close> converted to \<open>int16_t\<close>: values from 32768 on become negative.\<close>

lemma sint_i16_uint: "sint (r::i16) = (if uint r < 32768 then uint r else uint r - 65536)"
proof (cases "uint r < 32768")
  case True
  have "sint (word_of_int (uint r) :: i16) = uint r"
    using True uint_ge_0 [of r] by (intro sint_of_int_i16) linarith+
  then show ?thesis using True by simp
next
  case False
  have eq: "(word_of_int (uint r - 65536) :: i16) = r"
    by (simp only: of_int_diff) simp
  have "sint (word_of_int (uint r - 65536) :: i16) = uint r - 65536"
    using False uint_lt2p [of r] by (intro sint_of_int_i16) simp_all
  then show ?thesis using False unfolding eq by simp
qed

section \<open>Row-major indexing\<close>

text \<open>
  Index \<open>k\<close> of a \<open>W\<close>-wide grid is column \<open>k mod W\<close> of row \<open>k div W\<close>; the
  facts below are what moving one step further along the grid needs.
\<close>

lemma rm_pos: "k < W * H \<Longrightarrow> k mod W < (W::nat) \<and> k div W < H"
proof
  assume a: "k < W * H"
  then have "0 < W" by (cases W) simp_all
  then show "k mod W < W" by simp
  from a \<open>0 < W\<close> show "k div W < H" by (simp add: div_less_iff_less_mult mult.commute)
qed
lemma rm_idx: "x < (W::nat) \<Longrightarrow> (y * W + x) mod W = x \<and> (y * W + x) div W = y"
  by simp
lemma rm_lt: "x < (W::nat) \<Longrightarrow> y < H \<Longrightarrow> y * W + x < W * H"
proof -
  assume "x < W" "y < H"
  then have "y * W + x < Suc y * W" by simp
  also have "\<dots> \<le> H * W" using \<open>y < H\<close> by (intro mult_le_mono1) simp
  finally show ?thesis by (simp add: mult.commute)
qed
lemma rm_step_col: "Suc (k mod W) < (W::nat) \<Longrightarrow> Suc k mod W = Suc (k mod W) \<and> Suc k div W = k div W"
  by (simp add: mod_Suc div_Suc)
lemma rm_step_row: "Suc (k mod W) = (W::nat) \<Longrightarrow> Suc k mod W = 0 \<and> Suc k div W = Suc (k div W)"
  by (simp add: mod_Suc div_Suc)
lemma rm_last: "Suc (k mod W) = (W::nat) \<Longrightarrow> Suc (k div W) = H \<Longrightarrow> Suc k = W * H"
proof -
  assume a: "Suc (k mod W) = W" "Suc (k div W) = H"
  have "Suc k = k div W * W + Suc (k mod W)" by simp
  also have "\<dots> = Suc (k div W) * W" using a(1) by simp
  also have "\<dots> = W * H" using a(2) by (simp add: mult.commute)
  finally show ?thesis .
qed

section \<open>Lists\<close>

lemma concat_replicate_length [simp]:
  "length (concat (replicate n xs)) = n * length xs"
  by (induction n) simp_all

lemma concat_map_be16_length [simp]:
  "length (concat (map be16 ws)) = 2 * length ws"
  by (induction ws) simp_all

end
