(* ===== verification/Hal.thy ===== *)
theory Hal
  imports Prelude
begin

text \<open>
  The transport shim the driver calls into (\<open>drv_gpio.h\<close>, \<open>drv_spi.h\<close> and
  \<open>aos_msleep\<close>; not part of the repository's sources): configure and write a pin,
  initialise an SPI device, send a byte buffer, sleep.  Each call is observed as an
  event appended to a trace; the driver's whole module state is the static SPI handle
  \<open>st7789_spi\<close> and that trace.  Only \<open>drv_spi_init\<close> answers the driver: its
  result is supplied by the platform as a function of the device configuration.
\<close>

section \<open>Devices, pins and events\<close>

type_synonym pin = nat

datatype spi_mode = SPI_MODE_0 | SPI_MODE_1 | SPI_MODE_2 | SPI_MODE_3

datatype gpio_mode = OUTPUT_PUSH_PULL

record spi_config =
  mode :: spi_mode
  freq :: nat
  data_width :: nat
  chip_select :: pin

record spi_dev_t =
  port :: nat
  config :: spi_config

datatype event =
    Gpio_Mode pin gpio_mode
  | Gpio_Write pin bool
  | Spi_Init spi_dev_t
  | Spi_Send spi_dev_t "byte list"
  | Sleep_Ms u32

text \<open>The module state of \<open>st7789.c\<close>: the static handle and what the bus has seen.\<close>

record st7789_state =
  st7789_spi :: spi_dev_t
  trace :: "event list"

text \<open>\<open>static spi_dev_t st7789_spi;\<close> is zero-initialised; nothing has been sent yet.\<close>

definition st7789_state0 :: st7789_state where
  "st7789_state0 = \<lparr>st7789_spi = \<lparr>port = 0, config = \<lparr>mode = SPI_MODE_0, freq = 0,
     data_width = 0, chip_select = 0\<rparr>\<rparr>, trace = []\<rparr>"

section \<open>The shim's calls\<close>

definition out :: "event list \<Rightarrow> st7789_state \<Rightarrow> st7789_state" where
  "out es s = s\<lparr>trace := trace s @ es\<rparr>"

definition drv_gpio_mode :: "pin \<Rightarrow> gpio_mode \<Rightarrow> st7789_state \<Rightarrow> st7789_state" where
  "drv_gpio_mode p m s = out [Gpio_Mode p m] s"

definition drv_gpio_write :: "pin \<Rightarrow> bool \<Rightarrow> st7789_state \<Rightarrow> st7789_state" where
  "drv_gpio_write p level s = out [Gpio_Write p level] s"

text \<open>\<open>drv_spi_send(dev, buf, len)\<close> puts the first \<open>len\<close> bytes of \<open>buf\<close> on the bus.\<close>

definition drv_spi_send :: "spi_dev_t \<Rightarrow> byte list \<Rightarrow> u32 \<Rightarrow> st7789_state \<Rightarrow> st7789_state" where
  "drv_spi_send dev buf len s = out [Spi_Send dev (take (unat len) buf)] s"

definition aos_msleep :: "u32 \<Rightarrow> st7789_state \<Rightarrow> st7789_state" where
  "aos_msleep ms s = out [Sleep_Ms ms] s"

definition drv_spi_init ::
    "(spi_dev_t \<Rightarrow> int) \<Rightarrow> spi_dev_t \<Rightarrow> st7789_state \<Rightarrow> int \<times> st7789_state" where
  "drv_spi_init platform dev s = (platform dev, out [Spi_Init dev] s)"

text \<open>The events a call has appended to the trace.\<close>

definition appended :: "st7789_state \<Rightarrow> st7789_state \<Rightarrow> event list" where
  "appended s s' = drop (length (trace s)) (trace s')"

section \<open>Traces\<close>

lemma out_out [simp]: "out b (out a s) = out (a @ b) s"
  by (simp add: out_def)

lemma out_Nil [simp]: "out [] s = s"
  by (simp add: out_def)

lemma st7789_spi_out [simp]: "st7789_spi (out es s) = st7789_spi s"
  by (simp add: out_def)

lemma trace_out [simp]: "trace (out es s) = trace s @ es"
  by (simp add: out_def)

lemma appended_out [simp]: "appended s (out es s) = es"
  by (simp add: appended_def out_def)

lemmas hal_defs = drv_gpio_mode_def drv_gpio_write_def drv_spi_send_def aos_msleep_def

end
