(* ===== verification/Encoder.thy ===== *)
theory Encoder
  imports Hal
begin

text \<open>
  The protocol encoder of \<open>src/DRIVER/ST7789/st7789.c\<close> (lines 13--69): the pin and
  command macros, \<open>st7789_delay_ms\<close>, and the four senders that drive the
  data/command pin and hand one buffer to \<open>drv_spi_send\<close>.  The lemmas give, for each
  sender, the exact events it appends: the DC level, then one SPI transfer on the
  module's device.
\<close>

section \<open>Macros\<close>

definition ST7789_DC_PIN :: pin where [st7789_defs]: "ST7789_DC_PIN = 2"
definition ST7789_RST_PIN :: pin where [st7789_defs]: "ST7789_RST_PIN = 3"
definition ST7789_CS_PIN :: pin where [st7789_defs]: "ST7789_CS_PIN = 4"
definition ST7789_BL_PIN :: pin where [st7789_defs]: "ST7789_BL_PIN = 5"

definition ST7789_WIDTH :: u16 where [st7789_defs]: "ST7789_WIDTH = 240"
definition ST7789_HEIGHT :: u16 where [st7789_defs]: "ST7789_HEIGHT = 240"

definition ST7789_SWRESET :: byte where [st7789_defs]: "ST7789_SWRESET = 0x01"
definition ST7789_SLPOUT :: byte where [st7789_defs]: "ST7789_SLPOUT = 0x11"
definition ST7789_NORON :: byte where [st7789_defs]: "ST7789_NORON = 0x13"
definition ST7789_INVOFF :: byte where [st7789_defs]: "ST7789_INVOFF = 0x20"
definition ST7789_INVON :: byte where [st7789_defs]: "ST7789_INVON = 0x21"
definition ST7789_DISPOFF :: byte where [st7789_defs]: "ST7789_DISPOFF = 0x28"
definition ST7789_DISPON :: byte where [st7789_defs]: "ST7789_DISPON = 0x29"
definition ST7789_CASET :: byte where [st7789_defs]: "ST7789_CASET = 0x2A"
definition ST7789_RASET :: byte where [st7789_defs]: "ST7789_RASET = 0x2B"
definition ST7789_RAMWR :: byte where [st7789_defs]: "ST7789_RAMWR = 0x2C"
definition ST7789_MADCTL :: byte where [st7789_defs]: "ST7789_MADCTL = 0x36"
definition ST7789_COLMOD :: byte where [st7789_defs]: "ST7789_COLMOD = 0x3A"

definition ST7789_MADCTL_MY :: byte where [st7789_defs]: "ST7789_MADCTL_MY = 0x80"
definition ST7789_MADCTL_MX :: byte where [st7789_defs]: "ST7789_MADCTL_MX = 0x40"
definition ST7789_MADCTL_MV :: byte where [st7789_defs]: "ST7789_MADCTL_MV = 0x20"
definition ST7789_MADCTL_RGB :: byte where [st7789_defs]: "ST7789_MADCTL_RGB = 0x00"

definition ST7789_BLACK :: u16 where [st7789_defs]: "ST7789_BLACK = 0x0000"
definition ST7789_BLUE :: u16 where [st7789_defs]: "ST7789_BLUE = 0x001F"
definition ST7789_RED :: u16 where [st7789_defs]: "ST7789_RED = 0xF800"
definition ST7789_GREEN :: u16 where [st7789_defs]: "ST7789_GREEN = 0x07E0"
definition ST7789_CYAN :: u16 where [st7789_defs]: "ST7789_CYAN = 0x07FF"
definition ST7789_MAGENTA :: u16 where [st7789_defs]: "ST7789_MAGENTA = 0xF81F"
definition ST7789_YELLOW :: u16 where [st7789_defs]: "ST7789_YELLOW = 0xFFE0"
definition ST7789_WHITE :: u16 where [st7789_defs]: "ST7789_WHITE = 0xFFFF"

section \<open>Senders\<close>

definition st7789_delay_ms :: "u32 \<Rightarrow> st7789_state \<Rightarrow> st7789_state" where
  "st7789_delay_ms ms s = aos_msleep ms s"

definition st7789_send_cmd :: "byte \<Rightarrow> st7789_state \<Rightarrow> st7789_state" where
  "st7789_send_cmd cmd s =
     (let s = drv_gpio_write ST7789_DC_PIN False s;
          buffer = [cmd]
      in drv_spi_send (st7789_spi s) buffer 1 s)"

definition st7789_send_data :: "byte \<Rightarrow> st7789_state \<Rightarrow> st7789_state" where
  "st7789_send_data data s =
     (let s = drv_gpio_write ST7789_DC_PIN True s;
          buffer = [data]
      in drv_spi_send (st7789_spi s) buffer 1 s)"

definition st7789_send_data16 :: "u16 \<Rightarrow> st7789_state \<Rightarrow> st7789_state" where
  "st7789_send_data16 data s =
     (let s = drv_gpio_write ST7789_DC_PIN True s;
          buffer = [hi_byte data, lo_byte data]
      in drv_spi_send (st7789_spi s) buffer 2 s)"

definition st7789_send_data_block :: "byte list \<Rightarrow> u32 \<Rightarrow> st7789_state \<Rightarrow> st7789_state" where
  "st7789_send_data_block data len s =
     (let s = drv_gpio_write ST7789_DC_PIN True s
      in drv_spi_send (st7789_spi s) data len s)"

section \<open>What each sender puts on the wire\<close>

text \<open>The events of one command byte and of one data transfer on device \<open>d\<close>.\<close>

definition cmd_ev :: "spi_dev_t \<Rightarrow> byte \<Rightarrow> event list" where
  "cmd_ev d c = [Gpio_Write ST7789_DC_PIN False, Spi_Send d [c]]"

definition data_ev :: "spi_dev_t \<Rightarrow> byte list \<Rightarrow> event list" where
  "data_ev d bs = [Gpio_Write ST7789_DC_PIN True, Spi_Send d bs]"

text \<open>
  The wire view of a trace: the bytes the controller receives, each tagged with the
  level of the D/C line when it was clocked in (\<open>False\<close>: command, \<open>True\<close>: data).
\<close>

fun wire :: "bool \<Rightarrow> event list \<Rightarrow> (bool \<times> byte) list" where
  "wire l [] = []"
| "wire l (Gpio_Write p v # es) = (if p = ST7789_DC_PIN then wire v es else wire l es)"
| "wire l (Spi_Send d bs # es) = map (Pair l) bs @ wire l es"
| "wire l (Gpio_Mode p m # es) = wire l es"
| "wire l (Spi_Init d # es) = wire l es"
| "wire l (Sleep_Ms n # es) = wire l es"

lemma st7789_delay_ms_out [trace_simps]:
  "st7789_delay_ms ms s = out [Sleep_Ms ms] s"
  by (simp add: st7789_delay_ms_def aos_msleep_def)

lemma st7789_send_cmd_out [trace_simps]:
  "st7789_send_cmd c s = out (cmd_ev (st7789_spi s) c) s"
  by (simp add: st7789_send_cmd_def cmd_ev_def hal_defs)

lemma st7789_send_data_out [trace_simps]:
  "st7789_send_data b s = out (data_ev (st7789_spi s) [b]) s"
  by (simp add: st7789_send_data_def data_ev_def hal_defs)

lemma st7789_send_data16_out [trace_simps]:
  "st7789_send_data16 w s = out (data_ev (st7789_spi s) (be16 w)) s"
  by (simp add: st7789_send_data16_def data_ev_def be16_def hal_defs)

lemma st7789_send_data_block_out [trace_simps]:
  "st7789_send_data_block data len s =
     out (data_ev (st7789_spi s) (take (unat len) data)) s"
  by (simp add: st7789_send_data_block_def data_ev_def hal_defs)

lemma wire_cmd_ev [simp]: "wire l (cmd_ev d c @ es) = (False, c) # wire False es"
  by (simp add: cmd_ev_def)

lemma wire_data_ev [simp]: "wire l (data_ev d bs @ es) = map (Pair True) bs @ wire True es"
  by (simp add: data_ev_def)

text \<open>
  C24.  \<open>st7789_send_data16\<close> puts exactly two bytes on the wire, both as data, high
  byte first, and they decode back to the value sent.
\<close>
theorem st7789_send_data16_wire:
  "\<exists>h lo. wire l (appended s (st7789_send_data16 w s)) = [(True, h), (True, lo)] \<and>
          word16_of_bytes h lo = w"
  by (simp add: trace_simps be16_def data_ev_def)

end
