(* ===== verification/Controller.thy ===== *)
theory Controller
  imports Encoder
begin

text \<open>
  The ST7789 controller as the driver sees it: a deterministic machine that reads the
  events of the trace.  The D/C line selects whether a transferred byte is a command or
  a parameter; \<open>CASET\<close>/\<open>RASET\<close> take four parameter bytes (two big-endian 16-bit
  bounds); \<open>RAMWR\<close> moves the write pointer to the window's top-left corner and then
  takes pixels as byte pairs, high byte first, advancing the pointer row-major through
  the window and wrapping to its start.  This is the abstract specification against
  which the drawing primitives are proved: it is not code of the repository, it is the
  contract of the chip that \<open>spec.md\<close> (sections 3 and 4.3) describes.  Frame memory is
  unbounded (\<open>nat \<times> nat\<close>); a reset puts the chip to sleep, display off, inversion off.
\<close>

section \<open>State and steps\<close>

record ctrl =
  dc :: bool
  cur_cmd :: "byte option"
  params :: "byte list"
  col_start :: nat
  col_end :: nat
  row_start :: nat
  row_end :: nat
  cx :: nat
  cy :: nat
  pending :: "byte option"
  fb :: "nat \<times> nat \<Rightarrow> u16"
  madctl :: byte
  colmod :: byte
  inverted :: bool
  display_on :: bool
  normal_mode :: bool
  sleeping :: bool
  backlight :: bool

definition hw_reset :: "ctrl \<Rightarrow> ctrl" where
  "hw_reset c = c\<lparr>cur_cmd := None, params := [], pending := None,
     sleeping := True, display_on := False, inverted := False\<rparr>"

text \<open>The write pointer moves right, then to the start of the next row, then wraps.\<close>

definition advance :: "ctrl \<Rightarrow> ctrl" where
  "advance c =
     (if cx c < col_end c then c\<lparr>cx := Suc (cx c)\<rparr>
      else c\<lparr>cx := col_start c, cy := (if cy c < row_end c then Suc (cy c) else row_start c)\<rparr>)"

definition ram_byte :: "ctrl \<Rightarrow> byte \<Rightarrow> ctrl" where
  "ram_byte c b =
     (case pending c of
        None \<Rightarrow> c\<lparr>pending := Some b\<rparr>
      | Some h \<Rightarrow> advance (c\<lparr>fb := (fb c)((cx c, cy c) := word16_of_bytes h b), pending := None\<rparr>))"

definition cmd_byte :: "ctrl \<Rightarrow> byte \<Rightarrow> ctrl" where
  "cmd_byte c b =
     (let c = c\<lparr>cur_cmd := Some b, params := [], pending := None\<rparr> in
      if b = ST7789_SWRESET then hw_reset c
      else if b = ST7789_SLPOUT then c\<lparr>sleeping := False\<rparr>
      else if b = ST7789_NORON then c\<lparr>normal_mode := True\<rparr>
      else if b = ST7789_INVON then c\<lparr>inverted := True\<rparr>
      else if b = ST7789_INVOFF then c\<lparr>inverted := False\<rparr>
      else if b = ST7789_DISPON then c\<lparr>display_on := True\<rparr>
      else if b = ST7789_DISPOFF then c\<lparr>display_on := False\<rparr>
      else if b = ST7789_RAMWR then c\<lparr>cx := col_start c, cy := row_start c\<rparr>
      else c)"

definition param_byte :: "ctrl \<Rightarrow> byte \<Rightarrow> ctrl" where
  "param_byte c b =
     (case cur_cmd c of
        None \<Rightarrow> c
      | Some m \<Rightarrow>
          if m = ST7789_RAMWR then ram_byte c b
          else
            let ps = params c @ [b]; c = c\<lparr>params := ps\<rparr> in
            if m = ST7789_CASET \<and> length ps = 4 then
              c\<lparr>col_start := unat (word16_of_bytes (ps ! 0) (ps ! 1)),
                col_end := unat (word16_of_bytes (ps ! 2) (ps ! 3))\<rparr>
            else if m = ST7789_RASET \<and> length ps = 4 then
              c\<lparr>row_start := unat (word16_of_bytes (ps ! 0) (ps ! 1)),
                row_end := unat (word16_of_bytes (ps ! 2) (ps ! 3))\<rparr>
            else if m = ST7789_MADCTL \<and> length ps = 1 then c\<lparr>madctl := b\<rparr>
            else if m = ST7789_COLMOD \<and> length ps = 1 then c\<lparr>colmod := b\<rparr>
            else c)"

definition ctrl_byte :: "ctrl \<Rightarrow> byte \<Rightarrow> ctrl" where
  "ctrl_byte c b = (if dc c then param_byte c b else cmd_byte c b)"

fun ctrl_event :: "ctrl \<Rightarrow> event \<Rightarrow> ctrl" where
  "ctrl_event c (Gpio_Write p level) =
     (if p = ST7789_DC_PIN then c\<lparr>dc := level\<rparr>
      else if p = ST7789_BL_PIN then c\<lparr>backlight := level\<rparr>
      else if p = ST7789_RST_PIN \<and> \<not> level then hw_reset c
      else c)"
| "ctrl_event c (Spi_Send d bs) = foldl ctrl_byte c bs"
| "ctrl_event c (Gpio_Mode p m) = c"
| "ctrl_event c (Spi_Init d) = c"
| "ctrl_event c (Sleep_Ms ms) = c"

definition ctrl_run :: "ctrl \<Rightarrow> event list \<Rightarrow> ctrl" where
  "ctrl_run c es = foldl ctrl_event c es"

section \<open>The addressing window and the pixel stream\<close>

text \<open>
  A window is the tuple \<open>(col_start, col_end, row_start, row_end)\<close>.  Pixel \<open>k\<close> of
  a stream lands at \<open>pos_of w k\<close>; \<open>idx_of\<close> is its inverse on the window.
  \<open>streaming c k\<close> says the controller is in the middle of a \<open>RAMWR\<close> with data
  mode selected, no half pixel pending, and the pointer at pixel \<open>k\<close>.
\<close>

type_synonym win = "nat \<times> nat \<times> nat \<times> nat"
abbreviation window :: "ctrl \<Rightarrow> win" where
  "window c \<equiv> (col_start c, col_end c, row_start c, row_end c)"
definition win_w :: "win \<Rightarrow> nat" where
  "win_w w = (case w of (cs, ce, rs, re) \<Rightarrow> Suc ce - cs)"
definition win_h :: "win \<Rightarrow> nat" where
  "win_h w = (case w of (cs, ce, rs, re) \<Rightarrow> Suc re - rs)"
definition win_ok :: "win \<Rightarrow> bool" where
  "win_ok w = (case w of (cs, ce, rs, re) \<Rightarrow> cs \<le> ce \<and> rs \<le> re)"
definition pos_of :: "win \<Rightarrow> nat \<Rightarrow> nat \<times> nat" where
  "pos_of w k = (case w of (cs, ce, rs, re) \<Rightarrow> (cs + k mod win_w w, rs + k div win_w w))"
definition idx_of :: "win \<Rightarrow> nat \<times> nat \<Rightarrow> nat" where
  "idx_of w q = (case w of (cs, ce, rs, re) \<Rightarrow> (snd q - rs) * win_w w + (fst q - cs))"
definition in_win :: "win \<Rightarrow> nat \<times> nat \<Rightarrow> bool" where
  "in_win w q = (case w of (cs, ce, rs, re) \<Rightarrow> cs \<le> fst q \<and> fst q \<le> ce \<and> rs \<le> snd q \<and> snd q \<le> re)"
definition streaming :: "ctrl \<Rightarrow> nat \<Rightarrow> bool" where
  "streaming c k \<longleftrightarrow> dc c \<and> cur_cmd c = Some ST7789_RAMWR \<and> pending c = None \<and>
     win_ok (window c) \<and> k < win_w (window c) * win_h (window c) \<and> (cx c, cy c) = pos_of (window c) k"
fun paint :: "win \<Rightarrow> nat \<Rightarrow> u16 list \<Rightarrow> (nat \<times> nat \<Rightarrow> u16) \<Rightarrow> (nat \<times> nat \<Rightarrow> u16)" where
  "paint w k [] f = f"
| "paint w k (v # vs) f = paint w (Suc k) vs (f(pos_of w k := v))"

abbreviation win_size :: "ctrl \<Rightarrow> nat" where
  "win_size c \<equiv> win_w (window c) * win_h (window c)"

text \<open>The events of a pixel stream sent in several transfers, one per chunk.\<close>

definition px_events :: "spi_dev_t \<Rightarrow> u16 list list \<Rightarrow> event list" where
  "px_events d chs = concat (map (\<lambda>ch. data_ev d (concat (map be16 ch))) chs)"

text \<open>A controller just powered up: asleep, display off, frame memory black.\<close>

definition ctrl0 :: ctrl where
  "ctrl0 = \<lparr>dc = False, cur_cmd = None, params = [], col_start = 0, col_end = 239,
     row_start = 0, row_end = 319, cx = 0, cy = 0, pending = None, fb = (\<lambda>_. 0),
     madctl = 0, colmod = 0x66, inverted = False, display_on = False, normal_mode = True,
     sleeping = True, backlight = False\<rparr>"

text \<open>
  What the screen shows after the driver has run: the controller, started in
  \<open>c0\<close>, after every event of the trace.
\<close>

definition screen :: "ctrl \<Rightarrow> st7789_state \<Rightarrow> ctrl" where
  "screen c0 s = ctrl_run c0 (trace s)"

text \<open>The panel's operating mode: sleep, display, inversion, normal mode, backlight.\<close>

definition panel_mode :: "ctrl \<Rightarrow> bool \<times> bool \<times> bool \<times> bool \<times> bool" where
  "panel_mode c = (sleeping c, display_on c, inverted c, normal_mode c, backlight c)"

section \<open>Running traces\<close>

lemma ctrl_run_Nil [simp]: "ctrl_run c [] = c"
  by (simp add: ctrl_run_def)

lemma ctrl_run_Cons [simp]: "ctrl_run c (e # es) = ctrl_run (ctrl_event c e) es"
  by (simp add: ctrl_run_def)

lemma ctrl_run_append [simp]: "ctrl_run c (es @ fs) = ctrl_run (ctrl_run c es) fs"
  by (simp add: ctrl_run_def)

lemma screen_out [simp]: "screen c0 (out es s) = ctrl_run (screen c0 s) es"
  by (simp add: screen_def)

lemma screen_spi_update [simp]: "screen c0 (s\<lparr>st7789_spi := d\<rparr>) = screen c0 s"
  by (simp add: screen_def)

section \<open>Pixel streams\<close>

lemma pos_of_in_win:
  assumes "k < win_w w * win_h w" shows "in_win w (pos_of w k)"
proof -
  from assms have "k mod win_w w < win_w w" "k div win_w w < win_h w" by (simp_all add: rm_pos)
  then show ?thesis by (auto simp: pos_of_def in_win_def win_w_def win_h_def split: prod.splits)
qed

lemma idx_of_pos_of:
  assumes "k < win_w w * win_h w" shows "idx_of w (pos_of w k) = k"
  by (simp add: idx_of_def pos_of_def mult.commute split: prod.splits)

lemma in_win_idx:
  assumes "in_win (cs, ce, rs, re) q"
  shows "pos_of (cs, ce, rs, re) (idx_of (cs, ce, rs, re) q) = q"
    and "idx_of (cs, ce, rs, re) q < win_w (cs, ce, rs, re) * win_h (cs, ce, rs, re)"
proof -
  let ?w = "(cs, ce, rs, re)"
  from assms have x: "fst q - cs < win_w ?w" and y: "snd q - rs < win_h ?w"
    by (auto simp: in_win_def win_w_def win_h_def)
  have m: "idx_of ?w q mod win_w ?w = fst q - cs"
    unfolding idx_of_def prod.case using x by (rule rm_idx [THEN conjunct1])
  have d: "idx_of ?w q div win_w ?w = snd q - rs"
    unfolding idx_of_def prod.case using x by (rule rm_idx [THEN conjunct2])
  show "pos_of ?w (idx_of ?w q) = q" using assms
    by (simp add: pos_of_def m d in_win_def prod_eq_iff)
  from x y show "idx_of ?w q < win_w ?w * win_h ?w"
    unfolding idx_of_def prod.case by (rule rm_lt)
qed

lemma pos_of_eq_iff:
  assumes "k < win_w w * win_h w"
  shows "pos_of w k = q \<longleftrightarrow> in_win w q \<and> idx_of w q = k"
  using assms pos_of_in_win idx_of_pos_of in_win_idx(1) by (cases w) blast

lemma paint_eq:
  "k + length vs \<le> win_w w * win_h w \<Longrightarrow>
   paint w k vs f q =
     (if in_win w q \<and> k \<le> idx_of w q \<and> idx_of w q < k + length vs
      then vs ! (idx_of w q - k) else f q)"
proof (induction vs arbitrary: k f)
  case Nil
  then show ?case by auto
next
  case (Cons v vs)
  then have k: "k < win_w w * win_h w" by simp
  from Cons have IH: "paint w (Suc k) vs (f(pos_of w k := v)) q =
     (if in_win w q \<and> Suc k \<le> idx_of w q \<and> idx_of w q < Suc k + length vs
      then vs ! (idx_of w q - Suc k) else (f(pos_of w k := v)) q)" by simp
  show ?case
  proof (cases "in_win w q \<and> idx_of w q = k")
    case True
    then have "pos_of w k = q" using pos_of_eq_iff [OF k] by blast
    with IH True show ?thesis by auto
  next
    case False
    then have "pos_of w k \<noteq> q" using pos_of_eq_iff [OF k] by blast
    with IH False show ?thesis
      by (auto simp: nth_Cons' not_less_eq_eq Suc_le_eq)
  qed
qed

lemma rm_next:
  assumes "k < W * H"
  shows "Suc (k mod W) < W \<Longrightarrow> Suc k mod (W * H) = Suc k"
    and "Suc (k mod W) = W \<Longrightarrow> Suc (k div W) < H \<Longrightarrow> Suc k mod (W * H) = Suc k"
    and "Suc (k mod W) = W \<Longrightarrow> Suc (k div W) = H \<Longrightarrow> Suc k mod (W * H) = 0"
proof -
  have W: "0 < W" using assms by (cases W) simp_all
  show "Suc (k mod W) < W \<Longrightarrow> Suc k mod (W * H) = Suc k"
  proof -
    assume a: "Suc (k mod W) < W"
    have "Suc k \<noteq> W * H"
    proof
      assume "Suc k = W * H"
      then have "Suc k mod W = 0" by simp
      with a show False by (simp add: rm_step_col)
    qed
    with assms show ?thesis by simp
  qed
  show "Suc (k mod W) = W \<Longrightarrow> Suc (k div W) < H \<Longrightarrow> Suc k mod (W * H) = Suc k"
  proof -
    assume m: "Suc (k mod W) = W" and h: "Suc (k div W) < H"
    have "Suc k div W = Suc (k div W)" using m by (rule rm_step_row [THEN conjunct2])
    with h have "Suc k div W < H" by simp
    with W have "Suc k < W * H" by (simp add: div_less_iff_less_mult mult.commute)
    then show ?thesis by simp
  qed
  show "Suc (k mod W) = W \<Longrightarrow> Suc (k div W) = H \<Longrightarrow> Suc k mod (W * H) = 0"
  proof -
    assume "Suc (k mod W) = W" "Suc (k div W) = H"
    then have "Suc k = W * H" by (rule rm_last)
    then show ?thesis by (simp only: mod_self)
  qed
qed

lemma advance_pos:
  assumes v: "win_ok (window c)"
    and k: "k < win_w (window c) * win_h (window c)" and p: "(cx c, cy c) = pos_of (window c) k"
  shows "advance c = c\<lparr>cx := fst (pos_of (window c) (Suc k mod (win_w (window c) * win_h (window c)))),
                       cy := snd (pos_of (window c) (Suc k mod (win_w (window c) * win_h (window c))))\<rparr>"
proof -
  let ?W = "win_w (window c)" and ?H = "win_h (window c)"
  from k have kd: "k div ?W < ?H" by (simp add: rm_pos)
  from p have x: "cx c = col_start c + k mod ?W" and y: "cy c = row_start c + k div ?W"
    by (simp_all add: pos_of_def)
  have xw: "cx c < col_end c \<longleftrightarrow> Suc (k mod ?W) < ?W"
    using v x by (auto simp: win_w_def win_ok_def)
  have yh: "cy c < row_end c \<longleftrightarrow> Suc (k div ?W) < ?H"
    using v y by (auto simp: win_h_def win_ok_def)
  show ?thesis
  proof (cases "Suc (k mod ?W) < ?W")
    case True
    have n: "Suc k mod (?W * ?H) = Suc k" using k True by (rule rm_next(1))
    have s: "Suc k mod ?W = Suc (k mod ?W)" "Suc k div ?W = k div ?W"
      using True by (simp_all add: rm_step_col)
    from True xw have "cx c < col_end c" by simp
    then show ?thesis using x y n s by (simp add: advance_def pos_of_def)
  next
    case False
    have m: "Suc (k mod ?W) = ?W" using False rm_pos [OF k] by simp
    have s: "Suc k mod ?W = 0" "Suc k div ?W = Suc (k div ?W)"
      using m by (simp_all only: rm_step_row)
    from False xw have cx: "\<not> cx c < col_end c" by simp
    show ?thesis
    proof (cases "Suc (k div ?W) < ?H")
      case True
      have n: "Suc k mod (?W * ?H) = Suc k" using k m True by (rule rm_next(2))
      from True yh have "cy c < row_end c" by simp
      then show ?thesis using cx y n s by (simp add: advance_def pos_of_def)
    next
      case False
      then have h: "Suc (k div ?W) = ?H" using kd by simp
      have n: "Suc k mod (?W * ?H) = 0" using k m h by (rule rm_next(3))
      from False yh have "\<not> cy c < row_end c" by simp
      then show ?thesis using cx n by (simp add: advance_def pos_of_def)
    qed
  qed
qed

lemma px_write:
  assumes s: "streaming c k"
  shows "foldl ctrl_byte c (be16 v) =
           c\<lparr>fb := (fb c)(pos_of (window c) k := v),
             cx := fst (pos_of (window c) (Suc k mod win_size c)),
             cy := snd (pos_of (window c) (Suc k mod win_size c))\<rparr>"
proof -
  let ?c2 = "c\<lparr>fb := (fb c)((cx c, cy c) := v), pending := None\<rparr>"
  from s have st: "dc c" "cur_cmd c = Some ST7789_RAMWR" "pending c = None"
    and w: "win_ok (window c)" and k: "k < win_size c" and p: "(cx c, cy c) = pos_of (window c) k"
    by (simp_all add: streaming_def)
  have "foldl ctrl_byte c (be16 v) = advance ?c2"
    using st by (simp add: be16_def ctrl_byte_def param_byte_def ram_byte_def)
  also have "\<dots> = ?c2\<lparr>cx := fst (pos_of (window c) (Suc k mod win_size c)),
                     cy := snd (pos_of (window c) (Suc k mod win_size c))\<rparr>"
    using advance_pos [of ?c2 k] w k p by simp
  finally show ?thesis using st p by simp
qed

lemma streaming_next:
  assumes "streaming c k" "Suc k < win_size c"
  shows "streaming (c\<lparr>fb := f, cx := fst (pos_of (window c) (Suc k)),
                       cy := snd (pos_of (window c) (Suc k))\<rparr>) (Suc k)"
  using assms by (simp add: streaming_def)

lemma stream_pixels:
  "streaming c k \<Longrightarrow> k + length vs \<le> win_size c \<Longrightarrow>
   foldl ctrl_byte c (concat (map be16 vs)) =
     c\<lparr>fb := paint (window c) k vs (fb c),
       cx := fst (pos_of (window c) ((k + length vs) mod win_size c)),
       cy := snd (pos_of (window c) ((k + length vs) mod win_size c))\<rparr>"
proof (induction vs arbitrary: c k)
  case Nil
  then have "pos_of (window c) k = (cx c, cy c)" and "k < win_size c"
    by (simp_all add: streaming_def)
  then show ?case by simp
next
  case (Cons v vs)
  let ?c1 = "c\<lparr>fb := (fb c)(pos_of (window c) k := v),
             cx := fst (pos_of (window c) (Suc k mod win_size c)),
             cy := snd (pos_of (window c) (Suc k mod win_size c))\<rparr>"
  have one: "foldl ctrl_byte c (be16 v) = ?c1" using Cons.prems(1) by (rule px_write)
  show ?case
  proof (cases vs)
    case Nil
    with one show ?thesis by (simp add: fun_upd_def)
  next
    case (Cons u us)
    with Cons.prems have lt: "Suc k < win_size c" by simp
    then have "streaming ?c1 (Suc k)" using Cons.prems(1) by (simp add: streaming_next)
    then have IH: "foldl ctrl_byte ?c1 (concat (map be16 vs)) =
       ?c1\<lparr>fb := paint (window ?c1) (Suc k) vs (fb ?c1),
         cx := fst (pos_of (window ?c1) ((Suc k + length vs) mod win_size ?c1)),
         cy := snd (pos_of (window ?c1) ((Suc k + length vs) mod win_size ?c1))\<rparr>"
      by (rule Cons.IH) (use Cons.prems(2) in simp)
    have "foldl ctrl_byte c (concat (map be16 (v # vs))) =
        foldl ctrl_byte ?c1 (concat (map be16 vs))"
      using one by (simp only: list.map concat.simps foldl_append)
    also note IH
    finally show ?thesis by simp
  qed
qed

lemma paint_append:
  "paint w k (xs @ ys) f = paint w (k + length xs) ys (paint w k xs f)"
  by (induction xs arbitrary: k f) simp_all

lemma streaming_win_pos: "streaming c k \<Longrightarrow> 0 < win_size c"
proof -
  assume "streaming c k"
  then have "k < win_size c" by (simp add: streaming_def)
  then show ?thesis by (rule le_less_trans [OF le0])
qed

lemma streaming_after:
  assumes "streaming c k"
  shows "streaming (c\<lparr>fb := f, cx := fst (pos_of (window c) (n mod win_size c)),
                       cy := snd (pos_of (window c) (n mod win_size c))\<rparr>) (n mod win_size c)"
  using assms streaming_win_pos [OF assms] by (simp add: streaming_def)

lemma dc_True_same: "dc c \<Longrightarrow> c\<lparr>dc := True\<rparr> = c"
  by (cases c) simp

lemma data_ev_streaming:
  "dc c \<Longrightarrow> ctrl_run c (data_ev d bs) = foldl ctrl_byte c bs"
  by (simp add: data_ev_def dc_True_same)

lemma stream_chunks:
  "streaming c k \<Longrightarrow> k + length (concat chs) \<le> win_size c \<Longrightarrow>
   ctrl_run c (px_events d chs) =
     c\<lparr>fb := paint (window c) k (concat chs) (fb c),
       cx := fst (pos_of (window c) ((k + length (concat chs)) mod win_size c)),
       cy := snd (pos_of (window c) ((k + length (concat chs)) mod win_size c))\<rparr>"
proof (induction chs arbitrary: c k)
  case Nil
  then have "pos_of (window c) k = (cx c, cy c)" and "k < win_size c"
    by (simp_all add: streaming_def)
  then show ?case by (simp add: px_events_def)
next
  case (Cons ch chs)
  let ?n = "(k + length ch) mod win_size c"
  let ?c1 = "c\<lparr>fb := paint (window c) k ch (fb c),
             cx := fst (pos_of (window c) ?n), cy := snd (pos_of (window c) ?n)\<rparr>"
  have one: "ctrl_run c (data_ev d (concat (map be16 ch))) = ?c1"
    using Cons.prems stream_pixels [of c k ch] by (simp add: data_ev_streaming streaming_def)
  have s1: "streaming ?c1 ?n" using Cons.prems(1) by (rule streaming_after)
  have n: "?n + length (concat chs) \<le> win_size c \<and>
           paint (window c) ?n (concat chs) = paint (window c) (k + length ch) (concat chs)"
  proof (cases "k + length ch < win_size c")
    case True
    then show ?thesis using Cons.prems(2) by simp
  next
    case False
    from Cons.prems(2) have "k + length ch + length (concat chs) \<le> win_size c" by simp
    with False have e: "k + length ch = win_size c" and "length (concat chs) = 0" by arith+
    then have c: "concat chs = []" by (simp only: length_0_conv)
    show ?thesis unfolding c using e by (simp add: fun_eq_iff)
  qed
  have IH: "ctrl_run ?c1 (px_events d chs) =
     ?c1\<lparr>fb := paint (window ?c1) ?n (concat chs) (fb ?c1),
        cx := fst (pos_of (window ?c1) ((?n + length (concat chs)) mod win_size ?c1)),
        cy := snd (pos_of (window ?c1) ((?n + length (concat chs)) mod win_size ?c1))\<rparr>"
    using s1 by (rule Cons.IH) (use n in simp)
  have "ctrl_run c (px_events d (ch # chs)) = ctrl_run ?c1 (px_events d chs)"
    using one by (simp add: px_events_def)
  also note IH
  finally show ?case using n by (simp add: paint_append mod_add_left_eq add.assoc)
qed

text \<open>The first transfer of a stream raises D/C; raising it earlier changes nothing.\<close>

lemma px_events_dc:
  "chs \<noteq> [] \<Longrightarrow> ctrl_run c (px_events d chs) = ctrl_run (c\<lparr>dc := True\<rparr>) (px_events d chs)"
  by (cases chs) (simp_all add: px_events_def data_ev_def)

lemma px_events_replicate:
  "concat (replicate n (data_ev d (be16 v))) = px_events d (replicate n [v])"
  by (induction n) (simp_all add: px_events_def)

section \<open>Data bytes leave the panel mode alone\<close>

lemma param_byte_mode:
  "panel_mode (param_byte c b) = panel_mode c \<and> dc (param_byte c b) = dc c"
  by (auto simp: param_byte_def ram_byte_def advance_def panel_mode_def Let_def
      split: option.splits)

lemma data_bytes_mode:
  "dc c \<Longrightarrow> panel_mode (foldl ctrl_byte c bs) = panel_mode c"
proof (induction bs arbitrary: c)
  case Nil
  then show ?case by simp
next
  case (Cons b bs)
  have "ctrl_byte c b = param_byte c b" using Cons.prems by (simp add: ctrl_byte_def)
  then show ?case using Cons.IH [of "param_byte c b"] param_byte_mode [of c b] Cons.prems by simp
qed

lemma data_ev_mode: "panel_mode (ctrl_run c (data_ev d bs)) = panel_mode c"
  using data_bytes_mode [of "c\<lparr>dc := True\<rparr>" bs]
  by (simp add: data_ev_def panel_mode_def)

lemma px_events_mode: "panel_mode (ctrl_run c (px_events d chs)) = panel_mode c"
proof (induction chs arbitrary: c)
  case Nil
  then show ?case by (simp add: px_events_def)
next
  case (Cons ch chs)
  have "ctrl_run c (px_events d (ch # chs)) =
      ctrl_run (ctrl_run c (data_ev d (concat (map be16 ch)))) (px_events d chs)"
    by (simp add: px_events_def)
  then show ?case using Cons.IH data_ev_mode by simp
qed

end
