(* ===== verification/Window.thy ===== *)
theory Window
  imports Controller
begin

text \<open>
  The addressing window manager and the reset pulse of \<open>st7789.c\<close> (lines 71--99):
  \<open>st7789_hard_reset\<close> drives the reset line high, low, high with 10, 10 and 120 ms
  pauses; \<open>st7789_set_addr_window\<close> sends \<open>CASET\<close> with the two column bounds,
  \<open>RASET\<close> with the two row bounds (each bound as two single data bytes, high byte
  first) and \<open>RAMWR\<close>.  The lemmas give its events, its wire view, and the state the
  controller is left in: window programmed, pointer at the top-left corner, ready for
  pixels.
\<close>

section \<open>Operations\<close>

definition st7789_hard_reset :: "st7789_state \<Rightarrow> st7789_state" where
  "st7789_hard_reset s =
     (let s = drv_gpio_write ST7789_RST_PIN True s;
          s = st7789_delay_ms 10 s;
          s = drv_gpio_write ST7789_RST_PIN False s;
          s = st7789_delay_ms 10 s;
          s = drv_gpio_write ST7789_RST_PIN True s
      in st7789_delay_ms 120 s)"

definition st7789_set_addr_window :: "u16 \<Rightarrow> u16 \<Rightarrow> u16 \<Rightarrow> u16 \<Rightarrow> st7789_state \<Rightarrow> st7789_state" where
  "st7789_set_addr_window x0 y0 x1 y1 s =
     (let s = st7789_send_cmd ST7789_CASET s;
          s = st7789_send_data (ucast (drop_bit 8 x0)) s;
          s = st7789_send_data (ucast (x0 AND 0xFF)) s;
          s = st7789_send_data (ucast (drop_bit 8 x1)) s;
          s = st7789_send_data (ucast (x1 AND 0xFF)) s;
          s = st7789_send_cmd ST7789_RASET s;
          s = st7789_send_data (ucast (drop_bit 8 y0)) s;
          s = st7789_send_data (ucast (y0 AND 0xFF)) s;
          s = st7789_send_data (ucast (drop_bit 8 y1)) s;
          s = st7789_send_data (ucast (y1 AND 0xFF)) s
      in st7789_send_cmd ST7789_RAMWR s)"

text \<open>The events of a window programming on device \<open>d\<close>.\<close>

definition addr_window_ev :: "spi_dev_t \<Rightarrow> u16 \<Rightarrow> u16 \<Rightarrow> u16 \<Rightarrow> u16 \<Rightarrow> event list" where
  "addr_window_ev d x0 y0 x1 y1 =
     cmd_ev d ST7789_CASET @ concat (map (\<lambda>b. data_ev d [b]) (be16 x0 @ be16 x1)) @
     cmd_ev d ST7789_RASET @ concat (map (\<lambda>b. data_ev d [b]) (be16 y0 @ be16 y1)) @
     cmd_ev d ST7789_RAMWR"

section \<open>Events and wire view\<close>

lemma st7789_hard_reset_out [trace_simps]:
  "st7789_hard_reset s =
     out [Gpio_Write ST7789_RST_PIN True, Sleep_Ms 10, Gpio_Write ST7789_RST_PIN False,
          Sleep_Ms 10, Gpio_Write ST7789_RST_PIN True, Sleep_Ms 120] s"
  by (simp add: st7789_hard_reset_def drv_gpio_write_def trace_simps)

lemma st7789_set_addr_window_out [trace_simps]:
  "st7789_set_addr_window x0 y0 x1 y1 s = out (addr_window_ev (st7789_spi s) x0 y0 x1 y1) s"
  by (simp add: st7789_set_addr_window_def addr_window_ev_def trace_simps
      be16_def hi_byte_def lo_byte_def)

lemma wire_data_bytes [simp]:
  "wire l (concat (map (\<lambda>b. data_ev d [b]) bs) @ es) =
     (if bs = [] then wire l es else map (Pair True) bs @ wire True es)"
  by (induction bs arbitrary: l) (simp_all add: data_ev_def)

lemma wire_addr_window_ev:
  "wire l (addr_window_ev d x0 y0 x1 y1 @ es) =
     [(False, ST7789_CASET)] @ map (Pair True) (be16 x0 @ be16 x1) @
     [(False, ST7789_RASET)] @ map (Pair True) (be16 y0 @ be16 y1) @
     [(False, ST7789_RAMWR)] @ wire False es"
  by (simp add: addr_window_ev_def be16_def)

section \<open>What the controller does with it\<close>

lemma ctrl_run_addr_window:
  "ctrl_run c (addr_window_ev d x0 y0 x1 y1) =
     c\<lparr>dc := False, cur_cmd := Some ST7789_RAMWR, params := [], pending := None,
       col_start := unat x0, col_end := unat x1, row_start := unat y0, row_end := unat y1,
       cx := unat x0, cy := unat y0\<rparr>"
  by (simp add: addr_window_ev_def cmd_ev_def data_ev_def be16_def ctrl_byte_def
      cmd_byte_def param_byte_def st7789_defs)

text \<open>
  The contract every drawing primitive relies on: program a window, then stream at
  most one window's worth of pixels, and the pixels land row-major from the window's
  top-left corner.
\<close>

lemma window_stream:
  assumes "unat x0 \<le> unat x1" "unat y0 \<le> unat y1"
    and "length (concat chs) \<le> (Suc (unat x1) - unat x0) * (Suc (unat y1) - unat y0)"
  shows "fb (ctrl_run c (addr_window_ev d x0 y0 x1 y1 @ px_events d chs)) =
           paint (unat x0, unat x1, unat y0, unat y1) 0 (concat chs) (fb c)"
proof (cases "chs = []")
  case True
  then show ?thesis by (simp add: px_events_def ctrl_run_addr_window)
next
  case False
  let ?c0 = "c\<lparr>dc := False, cur_cmd := Some ST7789_RAMWR, params := [], pending := None,
       col_start := unat x0, col_end := unat x1, row_start := unat y0, row_end := unat y1,
       cx := unat x0, cy := unat y0\<rparr>"
  let ?c1 = "?c0\<lparr>dc := True\<rparr>"
  have w: "win_w (window ?c1) * win_h (window ?c1) = (Suc (unat x1) - unat x0) * (Suc (unat y1) - unat y0)"
    by (simp add: win_w_def win_h_def)
  have pos: "0 < win_w (window ?c1) * win_h (window ?c1)"
    using assms(1,2) by (simp add: win_w_def win_h_def)
  have s: "streaming ?c1 0"
    using assms(1,2) pos by (simp add: streaming_def win_ok_def pos_of_def)
  have "ctrl_run c (addr_window_ev d x0 y0 x1 y1 @ px_events d chs) = ctrl_run ?c0 (px_events d chs)"
    by (simp add: ctrl_run_addr_window)
  also have "\<dots> = ctrl_run ?c1 (px_events d chs)"
    by (rule px_events_dc [OF False])
  also have "\<dots> = ?c1\<lparr>fb := paint (window ?c1) 0 (concat chs) (fb ?c1),
       cx := fst (pos_of (window ?c1) ((0 + length (concat chs)) mod win_size ?c1)),
       cy := snd (pos_of (window ?c1) ((0 + length (concat chs)) mod win_size ?c1))\<rparr>"
    using s by (rule stream_chunks) (use assms(3) w in simp)
  finally show ?thesis by simp
qed

text \<open>
  C25.  \<open>st7789_set_addr_window\<close> sends \<open>CASET\<close>, the column bounds as four data
  bytes, \<open>RASET\<close>, the row bounds as four data bytes, then \<open>RAMWR\<close>; the controller
  decodes them into exactly the requested window and puts its write pointer at the
  window's top-left corner, ready for pixel data.
\<close>
theorem st7789_set_addr_window_programs:
  "wire l (appended s (st7789_set_addr_window x0 y0 x1 y1 s)) =
     [(False, ST7789_CASET)] @ map (Pair True) (be16 x0 @ be16 x1) @
     [(False, ST7789_RASET)] @ map (Pair True) (be16 y0 @ be16 y1) @ [(False, ST7789_RAMWR)] \<and>
   (let c = screen c0 (st7789_set_addr_window x0 y0 x1 y1 s) in
      window c = (unat x0, unat x1, unat y0, unat y1) \<and> (cx c, cy c) = (unat x0, unat y0) \<and>
      cur_cmd c = Some ST7789_RAMWR \<and> pending c = None)"
  using wire_addr_window_ev [of l "st7789_spi s" x0 y0 x1 y1 "[]"]
  by (simp add: trace_simps ctrl_run_addr_window)

theorem st7789_set_addr_window_example:
  "wire False (appended st7789_state0 (st7789_set_addr_window 10 20 50 60 st7789_state0)) =
     [(False, 0x2A), (True, 0), (True, 10), (True, 0), (True, 50),
      (False, 0x2B), (True, 0), (True, 20), (True, 0), (True, 60), (False, 0x2C)]"
  using st7789_set_addr_window_programs [of False st7789_state0 10 20 50 60]
  by (simp add: be16_def hi_byte_def lo_byte_def st7789_defs)

end
