(* ===== verification/Init.thy ===== *)
theory Init
  imports Window
begin

text \<open>
  The controller state sequencer of \<open>st7789.c\<close> (lines 101--168).  \<open>st7789_init\<close>
  fills in the static SPI handle, asks the platform to initialise it, and aborts with
  \<open>-1\<close> when that fails (the \<open>printf\<close> of the failure path goes to the console, not to
  the display, and is not modelled); otherwise it configures the three control pins,
  pulses reset, and sends the fixed power-up sequence with its delays.  The platform's
  answer to \<open>drv_spi_init\<close> is the parameter \<open>platform\<close>.  The lemmas give both
  outcomes: the error path touches nothing but the handle, and the success path leaves
  the controller awake, in RGB565, inverted, normal mode, display and backlight on.
\<close>

section \<open>Operation\<close>

definition st7789_init :: "(spi_dev_t \<Rightarrow> int) \<Rightarrow> st7789_state \<Rightarrow> int \<times> st7789_state" where
  "st7789_init platform s =
     (let dev = st7789_spi s;
          dev = dev\<lparr>port := 0\<rparr>;
          dev = dev\<lparr>config := (config dev)\<lparr>mode := SPI_MODE_0\<rparr>\<rparr>;
          dev = dev\<lparr>config := (config dev)\<lparr>freq := 40000000\<rparr>\<rparr>;
          dev = dev\<lparr>config := (config dev)\<lparr>data_width := 8\<rparr>\<rparr>;
          dev = dev\<lparr>config := (config dev)\<lparr>chip_select := ST7789_CS_PIN\<rparr>\<rparr>;
          s = s\<lparr>st7789_spi := dev\<rparr>;
          (ret, s) = drv_spi_init platform (st7789_spi s) s
      in if ret \<noteq> 0 then (-1, s)
         else
           let s = drv_gpio_mode ST7789_DC_PIN OUTPUT_PUSH_PULL s;
               s = drv_gpio_mode ST7789_RST_PIN OUTPUT_PUSH_PULL s;
               s = drv_gpio_mode ST7789_BL_PIN OUTPUT_PUSH_PULL s;
               s = st7789_hard_reset s;
               s = st7789_send_cmd ST7789_SWRESET s;
               s = st7789_delay_ms 150 s;
               s = st7789_send_cmd ST7789_SLPOUT s;
               s = st7789_delay_ms 500 s;
               s = st7789_send_cmd ST7789_COLMOD s;
               s = st7789_send_data 0x05 s;
               s = st7789_delay_ms 10 s;
               s = st7789_send_cmd ST7789_MADCTL s;
               s = st7789_send_data 0x00 s;
               s = st7789_delay_ms 10 s;
               s = st7789_send_cmd ST7789_CASET s;
               s = st7789_send_data 0x00 s;
               s = st7789_send_data 0x00 s;
               s = st7789_send_data 0x00 s;
               s = st7789_send_data 0xEF s;
               s = st7789_send_cmd ST7789_RASET s;
               s = st7789_send_data 0x00 s;
               s = st7789_send_data 0x00 s;
               s = st7789_send_data 0x01 s;
               s = st7789_send_data 0x3F s;
               s = st7789_send_cmd ST7789_INVON s;
               s = st7789_delay_ms 10 s;
               s = st7789_send_cmd ST7789_NORON s;
               s = st7789_delay_ms 10 s;
               s = st7789_send_cmd ST7789_DISPON s;
               s = st7789_delay_ms 100 s;
               s = drv_gpio_write ST7789_BL_PIN True s
           in (0, s))"

text \<open>The device the handle describes once \<open>st7789_init\<close> has filled it in.\<close>

definition st7789_dev :: "spi_dev_t \<Rightarrow> spi_dev_t" where
  "st7789_dev d = d\<lparr>port := 0, config := (config d)\<lparr>mode := SPI_MODE_0, freq := 40000000,
     data_width := 8, chip_select := ST7789_CS_PIN\<rparr>\<rparr>"

text \<open>The events of the power-up sequence after a successful \<open>drv_spi_init\<close>.\<close>

definition init_ev :: "spi_dev_t \<Rightarrow> event list" where
  "init_ev d =
     [Gpio_Mode ST7789_DC_PIN OUTPUT_PUSH_PULL, Gpio_Mode ST7789_RST_PIN OUTPUT_PUSH_PULL,
      Gpio_Mode ST7789_BL_PIN OUTPUT_PUSH_PULL,
      Gpio_Write ST7789_RST_PIN True, Sleep_Ms 10, Gpio_Write ST7789_RST_PIN False,
      Sleep_Ms 10, Gpio_Write ST7789_RST_PIN True, Sleep_Ms 120] @
     cmd_ev d ST7789_SWRESET @ [Sleep_Ms 150] @
     cmd_ev d ST7789_SLPOUT @ [Sleep_Ms 500] @
     cmd_ev d ST7789_COLMOD @ data_ev d [0x05] @ [Sleep_Ms 10] @
     cmd_ev d ST7789_MADCTL @ data_ev d [0x00] @ [Sleep_Ms 10] @
     cmd_ev d ST7789_CASET @ data_ev d [0x00] @ data_ev d [0x00] @ data_ev d [0x00] @
       data_ev d [0xEF] @
     cmd_ev d ST7789_RASET @ data_ev d [0x00] @ data_ev d [0x00] @ data_ev d [0x01] @
       data_ev d [0x3F] @
     cmd_ev d ST7789_INVON @ [Sleep_Ms 10] @
     cmd_ev d ST7789_NORON @ [Sleep_Ms 10] @
     cmd_ev d ST7789_DISPON @ [Sleep_Ms 100] @
     [Gpio_Write ST7789_BL_PIN True]"

section \<open>Both outcomes\<close>

lemma st7789_init_result:
  "st7789_init platform s =
     (if platform (st7789_dev (st7789_spi s)) \<noteq> 0
      then (-1, out [Spi_Init (st7789_dev (st7789_spi s))] (s\<lparr>st7789_spi := st7789_dev (st7789_spi s)\<rparr>))
      else (0, out (Spi_Init (st7789_dev (st7789_spi s)) # init_ev (st7789_dev (st7789_spi s)))
                  (s\<lparr>st7789_spi := st7789_dev (st7789_spi s)\<rparr>)))"
  by (simp add: st7789_init_def st7789_dev_def drv_spi_init_def init_ev_def hal_defs trace_simps Let_def)

section \<open>Power-up\<close>

lemma ctrl_run_init_ev:
  "let c' = ctrl_run c (init_ev d) in
     \<not> sleeping c' \<and> display_on c' \<and> inverted c' \<and> normal_mode c' \<and> backlight c' \<and>
     colmod c' = 0x05 \<and> madctl c' = 0x00 \<and>
     (col_start c', col_end c', row_start c', row_end c') = (0, 239, 0, 319) \<and> fb c' = fb c"
  by (simp add: init_ev_def cmd_ev_def data_ev_def ctrl_byte_def cmd_byte_def param_byte_def
      hw_reset_def word16_of_bytes_def st7789_defs)

text \<open>
  C7.  When the platform refuses the SPI device, \<open>st7789_init\<close> returns \<open>-1\<close> and
  has done nothing but that one \<open>drv_spi_init\<close> call: no pin, command or delay.
\<close>
theorem st7789_init_fails:
  assumes "platform (st7789_dev (st7789_spi s)) \<noteq> 0"
  shows "fst (st7789_init platform s) = -1 \<and>
         trace (snd (st7789_init platform s)) = trace s @ [Spi_Init (st7789_dev (st7789_spi s))]"
  using assms by (simp add: st7789_init_result)

theorem st7789_init_fails_witness:
  "fst (st7789_init (\<lambda>_. -5) st7789_state0) = -1 \<and>
   trace (snd (st7789_init (\<lambda>_. -5) st7789_state0)) = [Spi_Init (st7789_dev (st7789_spi st7789_state0))]"
  using st7789_init_fails [of "\<lambda>_. -5" st7789_state0] by (simp add: st7789_state0_def)

text \<open>
  C8.  When the platform accepts the SPI device, \<open>st7789_init\<close> returns 0 and leaves
  the controller awake, in 16-bit colour, inverted, in normal mode, with the display and
  the backlight on, orientation register 0, window columns 0--239 and rows 0--319, frame
  memory untouched.
\<close>
theorem st7789_init_powers_up:
  assumes "platform (st7789_dev (st7789_spi s)) = 0"
  shows "fst (st7789_init platform s) = 0 \<and>
    (let c = screen c0 (snd (st7789_init platform s)) in
       \<not> sleeping c \<and> display_on c \<and> inverted c \<and> normal_mode c \<and> backlight c \<and>
       colmod c = 0x05 \<and> madctl c = 0x00 \<and>
       (col_start c, col_end c, row_start c, row_end c) = (0, 239, 0, 319) \<and>
       fb c = fb (screen c0 s))"
  using assms ctrl_run_init_ev [of "screen c0 s" "st7789_dev (st7789_spi s)"]
  by (simp add: st7789_init_result Let_def)

theorem st7789_init_powers_up_witness:
  "fst (st7789_init (\<lambda>_. 0) st7789_state0) = 0 \<and>
   \<not> sleeping (screen ctrl0 (snd (st7789_init (\<lambda>_. 0) st7789_state0))) \<and>
   row_end (screen ctrl0 (snd (st7789_init (\<lambda>_. 0) st7789_state0))) = 319"
  using st7789_init_powers_up [of "\<lambda>_. 0" st7789_state0 ctrl0] by (simp add: Let_def)

end
