(* ===== verification/Mode.thy ===== *)
theory Mode
  imports Controller
begin

text \<open>
  Orientation and mode control of \<open>st7789.c\<close> (lines 304--343).  The rotation type
  \<open>st7789_rotation_t\<close> is a C enum, so a value is an \<open>int\<close>; the \<open>switch\<close> of
  \<open>st7789_set_rotation\<close> has no \<open>default\<close>, so for a value outside the four named ones
  only the \<open>MADCTL\<close> command goes out.  \<open>st7789_display_on\<close> and
  \<open>st7789_invert_display\<close> each send one of two commands.  The lemmas give the
  orientation register each rotation leaves in the controller and the flags the two
  toggles set.
\<close>

section \<open>Operations\<close>

type_synonym st7789_rotation_t = int

definition ST7789_ROTATION_0 :: st7789_rotation_t where [st7789_defs]: "ST7789_ROTATION_0 = 0"
definition ST7789_ROTATION_90 :: st7789_rotation_t where [st7789_defs]: "ST7789_ROTATION_90 = 1"
definition ST7789_ROTATION_180 :: st7789_rotation_t where [st7789_defs]: "ST7789_ROTATION_180 = 2"
definition ST7789_ROTATION_270 :: st7789_rotation_t where [st7789_defs]: "ST7789_ROTATION_270 = 3"

definition st7789_set_rotation :: "st7789_rotation_t \<Rightarrow> st7789_state \<Rightarrow> st7789_state" where
  "st7789_set_rotation rotation s =
     (let s = st7789_send_cmd ST7789_MADCTL s in
      if rotation = ST7789_ROTATION_0 then
        st7789_send_data (ST7789_MADCTL_MX OR ST7789_MADCTL_MY OR ST7789_MADCTL_RGB) s
      else if rotation = ST7789_ROTATION_90 then
        st7789_send_data (ST7789_MADCTL_MY OR ST7789_MADCTL_MV OR ST7789_MADCTL_RGB) s
      else if rotation = ST7789_ROTATION_180 then
        st7789_send_data ST7789_MADCTL_RGB s
      else if rotation = ST7789_ROTATION_270 then
        st7789_send_data (ST7789_MADCTL_MX OR ST7789_MADCTL_MV OR ST7789_MADCTL_RGB) s
      else s)"

definition st7789_display_on :: "bool \<Rightarrow> st7789_state \<Rightarrow> st7789_state" where
  "st7789_display_on on s =
     (if on then st7789_send_cmd ST7789_DISPON s else st7789_send_cmd ST7789_DISPOFF s)"

definition st7789_invert_display :: "bool \<Rightarrow> st7789_state \<Rightarrow> st7789_state" where
  "st7789_invert_display invert s =
     (if invert then st7789_send_cmd ST7789_INVON s else st7789_send_cmd ST7789_INVOFF s)"

text \<open>The orientation patterns of spec section 4.5, one per rotation.\<close>

definition madctl_of :: "st7789_rotation_t \<Rightarrow> byte option" where
  "madctl_of r =
     (if r = 0 then Some 0xC0 else if r = 1 then Some 0xA0 else if r = 2 then Some 0x00
      else if r = 3 then Some 0x60 else None)"

section \<open>Effects on the controller\<close>

lemma st7789_set_rotation_out [trace_simps]:
  "st7789_set_rotation r s =
     out (cmd_ev (st7789_spi s) ST7789_MADCTL @
          (case madctl_of r of None \<Rightarrow> [] | Some m \<Rightarrow> data_ev (st7789_spi s) [m])) s"
  by (simp add: st7789_set_rotation_def madctl_of_def trace_simps st7789_defs)

lemma ctrl_madctl_ev:
  "ctrl_run c (cmd_ev d ST7789_MADCTL @ data_ev d [m]) =
     c\<lparr>dc := True, cur_cmd := Some ST7789_MADCTL, params := [m], pending := None, madctl := m\<rparr>"
  by (simp add: cmd_ev_def data_ev_def ctrl_byte_def cmd_byte_def param_byte_def st7789_defs)

section \<open>Orientation and mode flags\<close>

text \<open>
  C9.  \<open>st7789_set_rotation\<close> leaves in the controller's orientation register the
  pattern of the requested rotation; for a value outside the four rotations the
  register keeps its old value (the command goes out with no parameter).
\<close>
theorem st7789_set_rotation_madctl:
  "madctl (screen c0 (st7789_set_rotation r s)) =
     (case madctl_of r of Some m \<Rightarrow> m | None \<Rightarrow> madctl (screen c0 s))"
proof (cases "madctl_of r")
  case None
  then show ?thesis
    by (simp add: st7789_set_rotation_out cmd_ev_def ctrl_byte_def cmd_byte_def st7789_defs)
next
  case (Some m)
  then show ?thesis
    using ctrl_madctl_ev [of "screen c0 s" "st7789_spi s" m] by (simp add: st7789_set_rotation_out)
qed

text \<open>
  C10.  \<open>st7789_display_on\<close> switches the panel output to the requested state and
  \<open>st7789_invert_display\<close> the colour inversion, whatever their previous state.
\<close>
theorem st7789_mode_toggles:
  "display_on (screen c0 (st7789_display_on on s)) = on \<and>
   inverted (screen c0 (st7789_invert_display b s)) = b"
  by (cases on; cases b)
     (simp_all add: st7789_display_on_def st7789_invert_display_def trace_simps cmd_ev_def
        ctrl_byte_def cmd_byte_def st7789_defs)

end
