(* ===== verification/Raster.thy ===== *)
theory Raster
  imports Window
begin

text \<open>
  The rectangle primitives of \<open>st7789.c\<close> (lines 170--221): \<open>st7789_clear\<close>,
  \<open>st7789_fill_rect\<close> with its two nested \<open>uint16_t\<close> loops, \<open>st7789_draw_pixel\<close>,
  \<open>st7789_draw_hline\<close> and \<open>st7789_draw_vline\<close>.  Each programs the window and then
  streams the colour, one two-byte transfer per pixel.  The lemmas give the events
  (window, then exactly \<open>w * h\<close> colour words), the termination of the loops, and the
  refinement: on the controller, each call paints exactly its rectangle.
\<close>

section \<open>Operations\<close>

text \<open>\<open>for (j = 0; j < w; j++) st7789_send_data_block(data, 2);\<close>\<close>

function fill_cols :: "u16 \<Rightarrow> u16 \<Rightarrow> byte list \<Rightarrow> st7789_state \<Rightarrow> st7789_state" where
  "fill_cols j w data s =
     (if j < w then fill_cols (j + 1) w data (st7789_send_data_block data 2 s) else s)"
  by pat_completeness auto
termination
  by (relation "measure (\<lambda>(j, w, data, s). unat w - unat j)") (auto intro: unat_measure_less)

text \<open>\<open>for (i = 0; i < h; i++) { inner loop }\<close>\<close>

function fill_rows :: "u16 \<Rightarrow> u16 \<Rightarrow> u16 \<Rightarrow> byte list \<Rightarrow> st7789_state \<Rightarrow> st7789_state" where
  "fill_rows i h w data s =
     (if i < h then fill_rows (i + 1) h w data (fill_cols 0 w data s) else s)"
  by pat_completeness auto
termination
  by (relation "measure (\<lambda>(i, h, w, data, s). unat h - unat i)") (auto intro: unat_measure_less)

definition st7789_fill_rect :: "u16 \<Rightarrow> u16 \<Rightarrow> u16 \<Rightarrow> u16 \<Rightarrow> u16 \<Rightarrow> st7789_state \<Rightarrow> st7789_state" where
  "st7789_fill_rect x y w h color s =
     (let data = [ucast (drop_bit 8 color), ucast (color AND 0xFF)];
          s = st7789_set_addr_window x y (x + w - 1) (y + h - 1) s
      in fill_rows 0 h w data s)"

definition st7789_clear :: "u16 \<Rightarrow> st7789_state \<Rightarrow> st7789_state" where
  "st7789_clear color s = st7789_fill_rect 0 0 ST7789_WIDTH ST7789_HEIGHT color s"

definition st7789_draw_pixel :: "u16 \<Rightarrow> u16 \<Rightarrow> u16 \<Rightarrow> st7789_state \<Rightarrow> st7789_state" where
  "st7789_draw_pixel x y color s =
     (let s = st7789_set_addr_window x y x y s
      in st7789_send_data16 color s)"

definition st7789_draw_hline :: "u16 \<Rightarrow> u16 \<Rightarrow> u16 \<Rightarrow> u16 \<Rightarrow> st7789_state \<Rightarrow> st7789_state" where
  "st7789_draw_hline x y w color s =
     (let s = st7789_set_addr_window x y (x + w - 1) y s;
          data = [ucast (drop_bit 8 color), ucast (color AND 0xFF)]
      in fill_cols 0 w data s)"

definition st7789_draw_vline :: "u16 \<Rightarrow> u16 \<Rightarrow> u16 \<Rightarrow> u16 \<Rightarrow> st7789_state \<Rightarrow> st7789_state" where
  "st7789_draw_vline x y h color s =
     (let s = st7789_set_addr_window x y x (y + h - 1) s;
          data = [ucast (drop_bit 8 color), ucast (color AND 0xFF)]
      in fill_cols 0 h data s)"

text \<open>The abstract operation: a rectangle of frame memory set to one colour.\<close>

definition fill_spec :: "nat \<Rightarrow> nat \<Rightarrow> nat \<Rightarrow> nat \<Rightarrow> u16 \<Rightarrow> (nat \<times> nat \<Rightarrow> u16) \<Rightarrow> (nat \<times> nat \<Rightarrow> u16)" where
  "fill_spec x y w h v f =
     (\<lambda>(px, py). if x \<le> px \<and> px < x + w \<and> y \<le> py \<and> py < y + h then v else f (px, py))"

section \<open>Events\<close>

declare fill_cols.simps [simp del] fill_rows.simps [simp del]

lemma fill_cols_out:
  "fill_cols j w data s =
     out (concat (replicate (unat w - unat j) (data_ev (st7789_spi s) (take 2 data)))) s"
proof (induction j w data s rule: fill_cols.induct)
  case (1 j w data s)
  show ?case
  proof (cases "j < w")
    case True
    then have n: "unat w - unat j = Suc (unat w - unat (j + 1))"
      using unat_succ_less [OF True] by (simp add: word_less_nat_alt)
    from True "1.IH" show ?thesis
      by (simp add: fill_cols.simps [of j] n trace_simps)
  next
    case False
    then show ?thesis by (simp add: fill_cols.simps [of j] word_less_nat_alt)
  qed
qed

lemma concat_replicate_add:
  "concat (replicate (m + n) xs) = concat (replicate m xs) @ concat (replicate n xs)"
  by (simp add: replicate_add)

lemma fill_rows_out:
  "fill_rows i h w data s =
     out (concat (replicate ((unat h - unat i) * unat w) (data_ev (st7789_spi s) (take 2 data)))) s"
proof (induction i h w data s rule: fill_rows.induct)
  case (1 i h w data s)
  show ?case
  proof (cases "i < h")
    case True
    then have "unat h - unat i = Suc (unat h - unat (i + 1))"
      using unat_succ_less [OF True] by (simp add: word_less_nat_alt)
    then have n: "(unat h - unat i) * unat w = unat w + (unat h - unat (i + 1)) * unat w"
      by simp
    from True "1.IH" show ?thesis
      by (simp add: fill_rows.simps [of i] n fill_cols_out concat_replicate_add)
  next
    case False
    then show ?thesis by (simp add: fill_rows.simps [of i] word_less_nat_alt)
  qed
qed

lemma rect_data: "[ucast (drop_bit 8 color), ucast (color AND 0xFF)] = be16 color"
  by (simp add: be16_def hi_byte_def lo_byte_def)

lemma st7789_fill_rect_out [trace_simps]:
  "st7789_fill_rect x y w h color s =
     out (addr_window_ev (st7789_spi s) x y (x + w - 1) (y + h - 1) @
          px_events (st7789_spi s) (replicate (unat h * unat w) [color])) s"
  by (simp add: st7789_fill_rect_def fill_rows_out rect_data px_events_replicate trace_simps)

lemma st7789_draw_hline_out [trace_simps]:
  "st7789_draw_hline x y w color s =
     out (addr_window_ev (st7789_spi s) x y (x + w - 1) y @
          px_events (st7789_spi s) (replicate (unat w) [color])) s"
  by (simp add: st7789_draw_hline_def fill_cols_out rect_data px_events_replicate trace_simps)

lemma st7789_draw_vline_out [trace_simps]:
  "st7789_draw_vline x y h color s =
     out (addr_window_ev (st7789_spi s) x y x (y + h - 1) @
          px_events (st7789_spi s) (replicate (unat h) [color])) s"
  by (simp add: st7789_draw_vline_def fill_cols_out rect_data px_events_replicate trace_simps)

lemma st7789_draw_pixel_out [trace_simps]:
  "st7789_draw_pixel x y color s =
     out (addr_window_ev (st7789_spi s) x y x y @ px_events (st7789_spi s) [[color]]) s"
  by (simp add: st7789_draw_pixel_def px_events_def trace_simps)

section \<open>Painting the controller\<close>

lemma paint_fill:
  "n = win_w w * win_h w \<Longrightarrow> paint w 0 (replicate n v) f = (\<lambda>q. if in_win w q then v else f q)"
  by (cases w) (auto simp: paint_eq in_win_idx(2) intro!: ext)

lemma rect_paints:
  assumes "0 < unat w" "0 < unat h" "unat x + unat w \<le> 65536" "unat y + unat h \<le> 65536"
  shows "fb (ctrl_run c (addr_window_ev d x y (x + w - 1) (y + h - 1) @
                        px_events d (replicate (unat h * unat w) [v]))) =
         fill_spec (unat x) (unat y) (unat w) (unat h) v (fb c)"
proof -
  have x1: "unat (x + w - 1) = unat x + unat w - 1"
    using assms(1,3) by (simp add: unat_add_minus_one)
  have y1: "unat (y + h - 1) = unat y + unat h - 1"
    using assms(2,4) by (simp add: unat_add_minus_one)
  have "fb (ctrl_run c (addr_window_ev d x y (x + w - 1) (y + h - 1) @
                        px_events d (replicate (unat h * unat w) [v]))) =
        paint (unat x, unat (x + w - 1), unat y, unat (y + h - 1)) 0
              (concat (replicate (unat h * unat w) [v])) (fb c)"
    using assms(1,2) by (intro window_stream) (simp_all add: x1 y1)
  also have "\<dots> = (\<lambda>q. if in_win (unat x, unat x + unat w - 1, unat y, unat y + unat h - 1) q
                         then v else fb c q)"
    using assms(1,2) by (simp add: x1 y1 paint_fill win_w_def win_h_def mult.commute)
  finally show ?thesis
    using assms(1,2) by (auto simp: in_win_def fill_spec_def fun_eq_iff)
qed

lemma draw_pixel_fb:
  "fb (screen c0 (st7789_draw_pixel x y color s)) = (fb (screen c0 s))((unat x, unat y) := color)"
proof -
  have "unat x + unat (1::u16) \<le> 65536" "unat y + unat (1::u16) \<le> 65536"
    using unat_u16_less [of x] unat_u16_less [of y] by simp_all
  then have "fb (ctrl_run c (addr_window_ev d x y x y @ px_events d [[color]])) =
      fill_spec (unat x) (unat y) 1 1 color (fb c)" for c d
    using rect_paints [of 1 1 x y c d color] by simp
  then show ?thesis
    by (simp add: trace_simps fill_spec_def fun_eq_iff)
qed

lemma clear_fb:
  "fb (screen c0 (st7789_clear color s)) = fill_spec 0 0 240 240 color (fb (screen c0 s))"
  using rect_paints [of 240 240 0 0 "screen c0 s" "st7789_spi s" color]
  by (simp add: st7789_clear_def trace_simps st7789_defs)

text \<open>C1.  \<open>st7789_fill_rect\<close> refines filling a rectangle: after the call, the frame
  memory of the controller holds the colour exactly on the \<open>w\<close> by \<open>h\<close> rectangle at
  \<open>(x, y)\<close> and is unchanged elsewhere, for any non-empty rectangle that fits in the
  16-bit coordinate space.\<close>

theorem st7789_fill_rect_paints:
  assumes "0 < unat w" "0 < unat h" "unat x + unat w \<le> 65536" "unat y + unat h \<le> 65536"
  shows "fb (screen c0 (st7789_fill_rect x y w h color s)) =
           fill_spec (unat x) (unat y) (unat w) (unat h) color (fb (screen c0 s))"
  using rect_paints [OF assms, of "screen c0 s" "st7789_spi s" color] by (simp add: trace_simps)

theorem st7789_fill_rect_paints_witness:
  "fb (screen ctrl0 (st7789_fill_rect 10 20 3 2 ST7789_RED st7789_state0)) =
     fill_spec 10 20 3 2 ST7789_RED (fb (screen ctrl0 st7789_state0))"
  using st7789_fill_rect_paints [of 3 2 10 20 ctrl0 ST7789_RED st7789_state0] by simp

text \<open>C2.  \<open>st7789_draw_pixel\<close> refines a single frame-memory write: the pixel at
  \<open>(x, y)\<close> gets the colour and nothing else changes, for every coordinate.\<close>

theorem st7789_draw_pixel_paints:
  "fb (screen c0 (st7789_draw_pixel x y color s)) = (fb (screen c0 s))((unat x, unat y) := color)"
  by (rule draw_pixel_fb)

text \<open>
  C19.  The line and pixel primitives send exactly what \<open>st7789_fill_rect\<close> sends
  for a rectangle one pixel high, one pixel wide, or both, for every argument
  (zero lengths included).
\<close>
theorem st7789_lines_are_rects:
  "st7789_draw_hline x y w color s = st7789_fill_rect x y w 1 color s \<and>
   st7789_draw_vline x y h color s = st7789_fill_rect x y 1 h color s \<and>
   st7789_draw_pixel x y color s = st7789_fill_rect x y 1 1 color s"
  by (simp add: trace_simps)

text \<open>
  C20.  \<open>st7789_draw_hline\<close> and \<open>st7789_draw_vline\<close> refine drawing a line: a
  non-empty line that fits in the 16-bit coordinate space is coloured and nothing
  else changes.
\<close>
theorem st7789_lines_paint:
  assumes "0 < unat n" "unat x + unat n \<le> 65536" "unat y + unat n \<le> 65536"
  shows "fb (screen c0 (st7789_draw_hline x y n color s)) =
           fill_spec (unat x) (unat y) (unat n) 1 color (fb (screen c0 s)) \<and>
         fb (screen c0 (st7789_draw_vline x y n color s)) =
           fill_spec (unat x) (unat y) 1 (unat n) color (fb (screen c0 s))"
proof -
  have x: "unat x + unat (1::u16) \<le> 65536" and y: "unat y + unat (1::u16) \<le> 65536"
    using unat_u16_less [of x] unat_u16_less [of y] by simp_all
  show ?thesis
    using rect_paints [of n 1 x y "screen c0 s" "st7789_spi s" color]
      rect_paints [of 1 n x y "screen c0 s" "st7789_spi s" color] assms x y
    by (simp add: trace_simps)
qed

theorem st7789_lines_paint_witness:
  "fb (screen ctrl0 (st7789_draw_hline 10 20 30 ST7789_RED st7789_state0)) =
     fill_spec 10 20 30 1 ST7789_RED (fb (screen ctrl0 st7789_state0)) \<and>
   fb (screen ctrl0 (st7789_draw_vline 10 20 30 ST7789_RED st7789_state0)) =
     fill_spec 10 20 1 30 ST7789_RED (fb (screen ctrl0 st7789_state0))"
  using st7789_lines_paint [of 30 10 20 ctrl0 ST7789_RED st7789_state0] by simp

text \<open>
  C21.  \<open>st7789_clear\<close> colours the 240 by 240 square at the origin and nothing
  else.
\<close>
theorem st7789_clear_paints:
  "fb (screen c0 (st7789_clear color s)) = fill_spec 0 0 240 240 color (fb (screen c0 s))"
  by (rule clear_fb)

end
