(* ===== verification/Bitmap.thy ===== *)
theory Bitmap
  imports Raster "HOL-Library.Monad_Syntax"
begin

text \<open>
  The bitmap blit of \<open>st7789.c\<close> (lines 278--302).  \<open>st7789_draw_bitmap\<close> programs
  the window and then serialises the \<open>w * h\<close> pixels of \<open>bitmap\<close> big-endian into a
  2048-byte stack buffer, at most 1024 pixels at a time, sending each chunk in one
  transfer.  The pointer \<open>bitmap\<close> is a function from indices to 16-bit values; the
  buffer's indeterminate initial contents are a parameter.  A store into the buffer is
  checked (\<open>buf_set\<close>): one past its end is undefined behaviour in C and makes the whole
  call \<open>None\<close>, so the copy loop, the chunk loop and the call are option-valued.  The
  lemmas show that no store leaves the buffer, that the chunks partition the row-major
  serialisation (no gap, no duplicate, every chunk full but the last), that no stale
  byte is sent, and that on the controller the call paints the bitmap into its rectangle.
\<close>

section \<open>Operations\<close>

text \<open>\<open>uint32_t chunk = pixels > 1024 ? 1024 : pixels;\<close>\<close>

definition bitmap_chunk :: "u32 \<Rightarrow> u32" where
  "bitmap_chunk pixels = (if 1024 < pixels then 1024 else pixels)"

lemma chunk_decreases:
  "0 < (pixels :: u32) \<Longrightarrow> unat (pixels - bitmap_chunk pixels) < unat pixels"
proof -
  assume p: "0 < pixels"
  let ?c = "bitmap_chunk pixels"
  have "0 < ?c" "?c \<le> pixels" using p by (auto simp: bitmap_chunk_def)
  then show ?thesis by (simp add: word_less_nat_alt word_le_nat_alt unat_sub del: word_less_eq_iff_unsigned)
qed

text \<open>
  A store into \<open>uint8_t buffer[2048]\<close>: in bounds it updates the byte, past the end it is
  undefined behaviour in C, which the model makes the value \<open>None\<close>.
\<close>

definition buf_set :: "byte list \<Rightarrow> nat \<Rightarrow> byte \<Rightarrow> byte list option" where
  "buf_set buffer k v = (if k < length buffer then Some (buffer[k := v]) else None)"

function bitmap_fill :: "u32 \<Rightarrow> u32 \<Rightarrow> u32 \<Rightarrow> (nat \<Rightarrow> u16) \<Rightarrow> byte list \<Rightarrow> byte list option" where
  "bitmap_fill i chunk offset bitmap buffer =
     (if i < chunk then
        do {
          buffer \<leftarrow> buf_set buffer (unat (i * 2)) (ucast (drop_bit 8 (bitmap (unat (offset + i)))));
          buffer \<leftarrow> buf_set buffer (unat (i * 2 + 1)) (ucast (bitmap (unat (offset + i)) AND 0xFF));
          bitmap_fill (i + 1) chunk offset bitmap buffer
        }
      else Some buffer)"
  by pat_completeness auto
termination
  by (relation "measure (\<lambda>(i, chunk, offset, bitmap, buffer). unat chunk - unat i)")
     (auto intro: unat_measure_less)

declare bitmap_fill.simps [simp del]

function bitmap_chunks ::
    "u32 \<Rightarrow> u32 \<Rightarrow> (nat \<Rightarrow> u16) \<Rightarrow> byte list \<Rightarrow> st7789_state \<Rightarrow> st7789_state option" where
  "bitmap_chunks pixels offset bitmap buffer s =
     (if 0 < pixels then
        let chunk = bitmap_chunk pixels
        in do {
             buffer \<leftarrow> bitmap_fill 0 chunk offset bitmap buffer;
             let s = st7789_send_data_block buffer (chunk * 2) s;
             bitmap_chunks (pixels - chunk) (offset + chunk) bitmap buffer s
           }
      else Some s)"
  by pat_completeness auto
termination
  by (relation "measure (\<lambda>(pixels, offset, bitmap, buffer, s). unat pixels)")
     (simp_all add: chunk_decreases)

definition st7789_draw_bitmap ::
    "u16 \<Rightarrow> u16 \<Rightarrow> u16 \<Rightarrow> u16 \<Rightarrow> (nat \<Rightarrow> u16) \<Rightarrow> byte list \<Rightarrow> st7789_state \<Rightarrow> st7789_state option" where
  "st7789_draw_bitmap x y w h bitmap buffer s =
     (let pixels = (ucast w * ucast h :: u32);
          offset = 0;
          s = st7789_set_addr_window x y (x + w - 1) (y + h - 1) s
      in bitmap_chunks pixels offset bitmap buffer s)"

text \<open>The reference chunking of the spec: consecutive pieces of at most \<open>k\<close> elements.\<close>

fun chunks :: "nat \<Rightarrow> 'a list \<Rightarrow> 'a list list" where
  "chunks k xs = (if xs = [] \<or> k = 0 then [] else take k xs # chunks k (drop k xs))"

text \<open>The abstract operation: a rectangle of frame memory replaced by the bitmap, row-major.\<close>

definition bitmap_spec ::
    "nat \<Rightarrow> nat \<Rightarrow> nat \<Rightarrow> nat \<Rightarrow> (nat \<Rightarrow> u16) \<Rightarrow> (nat \<times> nat \<Rightarrow> u16) \<Rightarrow> (nat \<times> nat \<Rightarrow> u16)" where
  "bitmap_spec x y w h bm f =
     (\<lambda>(px, py). if x \<le> px \<and> px < x + w \<and> y \<le> py \<and> py < y + h
                 then bm ((py - y) * w + (px - x)) else f (px, py))"

section \<open>Word arithmetic of the loops\<close>

lemma unat_ucast_u16: "unat (ucast (w::u16) :: u32) = unat w"
proof -
  have "unat w < 2 ^ 32" using unat_u16_less [of w] by simp
  then show ?thesis by (simp add: unsigned_ucast_eq take_bit_nat_eq_self_iff)
qed
lemma unat_pixels: "unat (ucast (w::u16) * ucast (h::u16) :: u32) = unat w * unat h"
proof -
  have "unat w * unat h \<le> 65535 * 65535"
    using unat_u16_less [of w] unat_u16_less [of h] by (intro mult_le_mono) simp_all
  then have "unat (ucast w :: u32) * unat (ucast h :: u32) < 2 ^ LENGTH(32)"
    by (simp add: unat_ucast_u16)
  then show ?thesis by (simp add: unat_mult_lem [THEN iffD1] unat_ucast_u16)
qed

lemma take_update_pair:
  "Suc n < length xs \<Longrightarrow> take (Suc (Suc n)) (xs[n := a, Suc n := b]) = take n xs @ [a, b]"
  by (rule nth_equalityI) (auto simp: nth_append nth_list_update less_Suc_eq)

lemma bitmap_index_words:
  assumes "i < (chunk :: u32)" "unat chunk \<le> 1024" "unat (offset :: u32) + unat chunk < 2 ^ 32"
  shows "unat (i * 2) = 2 * unat i" "unat (i * 2 + 1) = Suc (2 * unat i)"
    and "unat (offset + i) = unat offset + unat i"
proof -
  have i: "unat i < unat chunk" using assms(1) by (simp add: word_less_nat_alt)
  have "unat i * unat (2::u32) < 2 ^ LENGTH(32)" using i assms(2) by simp
  then have "unat (i * 2) = unat i * unat (2::u32)" by (rule unat_mult_lem [THEN iffD1])
  then show m: "unat (i * 2) = 2 * unat i" by simp
  have "unat (i * 2) + unat (1::u32) < 2 ^ LENGTH(32)" using m i assms(2) by simp
  then show "unat (i * 2 + 1) = Suc (2 * unat i)" using m by (simp add: unat_add_lem [THEN iffD1])
  have "unat offset + unat i < 2 ^ LENGTH(32)" using i assms(3) by simp
  then show "unat (offset + i) = unat offset + unat i" by (rule unat_add_lem [THEN iffD1])
qed

lemma buf_set_in [simp]: "k < length buffer \<Longrightarrow> buf_set buffer k v = Some (buffer[k := v])"
  by (simp add: buf_set_def)

lemma bitmap_fill_prefix:
  "i \<le> chunk \<Longrightarrow> unat chunk \<le> 1024 \<Longrightarrow> length buffer = 2048 \<Longrightarrow>
   unat offset + unat chunk < 2 ^ 32 \<Longrightarrow>
   \<exists>b. bitmap_fill i chunk offset bm buffer = Some b \<and>
     take (2 * unat chunk) b =
       take (2 * unat i) buffer @ concat (map (\<lambda>j. be16 (bm j)) [unat offset + unat i..<unat offset + unat chunk])
     \<and> length b = 2048"
proof (induction i chunk offset bm buffer rule: bitmap_fill.induct)
  case (1 i chunk offset bm buffer)
  show ?case
  proof (cases "i < chunk")
    case True
    note w = bitmap_index_words [OF True "1.prems"(2,4)]
    let ?v = "bm (unat offset + unat i)"
    let ?b = "buffer[2 * unat i := hi_byte ?v, Suc (2 * unat i) := lo_byte ?v]"
    have lt: "unat i < 1024" using True "1.prems"(2) by (simp add: word_less_nat_alt)
    have s: "unat (i + 1) = Suc (unat i)" by (rule unat_succ_less [OF True])
    have b1: "buf_set buffer (unat (i * 2)) (ucast (drop_bit 8 (bm (unat (offset + i))))) =
        Some (buffer[2 * unat i := hi_byte ?v])"
      using lt "1.prems"(3) w by (simp add: hi_byte_def)
    have b2: "buf_set (buffer[2 * unat i := hi_byte ?v]) (unat (i * 2 + 1))
        (ucast (bm (unat (offset + i)) AND 0xFF)) = Some ?b"
      using lt "1.prems"(3) w by (simp add: lo_byte_def)
    have step: "bitmap_fill i chunk offset bm buffer = bitmap_fill (i + 1) chunk offset bm ?b"
      by (subst bitmap_fill.simps) (simp only: True if_True b1 b2 bind.simps)
    obtain b where IH: "bitmap_fill (i + 1) chunk offset bm ?b = Some b"
        "take (2 * unat chunk) b = take (2 * unat (i + 1)) ?b @ concat (map (\<lambda>j. be16 (bm j))
          [unat offset + unat (i + 1)..<unat offset + unat chunk])" "length b = 2048"
      using "1.IH" [OF True b1 b2] True "1.prems" w by (auto simp: inc_le)
    have pre: "take (2 * unat (i + 1)) ?b = take (2 * unat i) buffer @ be16 ?v"
      using take_update_pair [of "2 * unat i" buffer] lt "1.prems"(3) s by (simp add: be16_def)
    have up: "[unat offset + unat i..<unat offset + unat chunk] =
        (unat offset + unat i) # [unat offset + unat (i + 1)..<unat offset + unat chunk]"
      using True s by (simp add: upt_conv_Cons word_less_nat_alt)
    show ?thesis using step IH pre up by simp
  next
    case False
    with "1.prems"(1) have "i = chunk" by simp
    then show ?thesis using "1.prems"(3) by (simp add: bitmap_fill.simps [of chunk])
  qed
qed

section \<open>The chunk loop\<close>

declare chunks.simps [simp del]

lemma chunks_upt:
  "0 < p \<Longrightarrow>
   chunks 1024 (map bm [a..<a + p]) = map bm [a..<a + min 1024 p] # chunks 1024 (map bm [a + min 1024 p..<a + p])"
  by (subst chunks.simps) (simp add: take_map drop_map min_def)

lemma bitmap_chunk_unat: "unat (bitmap_chunk pixels) = min 1024 (unat pixels)"
  by (simp add: bitmap_chunk_def word_less_nat_alt min_def)

lemma bitmap_chunks_out:
  "length buffer = 2048 \<Longrightarrow> unat offset + unat pixels < 2 ^ 32 \<Longrightarrow>
   bitmap_chunks pixels offset bm buffer s =
     Some (out (px_events (st7789_spi s) (chunks 1024 (map bm [unat offset..<unat offset + unat pixels]))) s)"
proof (induction pixels offset bm buffer s rule: bitmap_chunks.induct)
  case (1 pixels offset bm buffer s)
  show ?case
  proof (cases "0 < pixels")
    case True
    let ?c = "bitmap_chunk pixels"
    let ?o = "unat offset" and ?n = "unat (bitmap_chunk pixels)"
    have p: "0 < unat pixels" using True by (simp add: word_less_nat_alt)
    have c: "?n = min 1024 (unat pixels)" by (rule bitmap_chunk_unat)
    have cb: "?n \<le> 1024" and cp: "?n \<le> unat pixels" using c by simp_all
    have oc: "?o + ?n < 2 ^ 32" using "1.prems"(2) cp by simp
    obtain b where fill: "bitmap_fill 0 ?c offset bm buffer = Some b"
        "take (2 * ?n) b = concat (map (\<lambda>j. be16 (bm j)) [?o..<?o + ?n])" "length b = 2048"
      using bitmap_fill_prefix [of 0 ?c buffer offset bm] "1.prems"(1) cb oc by auto
    let ?s = "st7789_send_data_block b (?c * 2) s"
    have c2: "unat (?c * 2) = 2 * ?n"
    proof -
      have "?n * unat (2::u32) < 2 ^ LENGTH(32)" using cb by simp
      then have "unat (?c * 2) = ?n * unat (2::u32)" by (rule unat_mult_lem [THEN iffD1])
      then show ?thesis by simp
    qed
    have sent: "?s = out (data_ev (st7789_spi s) (concat (map be16 (map bm [?o..<?o + ?n])))) s"
      using fill c2 by (simp add: trace_simps comp_def)
    have off: "unat (offset + ?c) = ?o + ?n"
    proof -
      have "unat offset + unat ?c < 2 ^ LENGTH(32)" using oc by simp
      then show ?thesis by (rule unat_add_lem [THEN iffD1])
    qed
    have pix: "unat (pixels - ?c) = unat pixels - ?n"
      using cp by (simp add: unat_sub word_le_nat_alt)
    have IH: "bitmap_chunks (pixels - ?c) (offset + ?c) bm b ?s =
        Some (out (px_events (st7789_spi ?s)
          (chunks 1024 (map bm [unat (offset + ?c)..<unat (offset + ?c) + unat (pixels - ?c)]))) ?s)"
      using "1.IH" [OF True refl] fill "1.prems"(2) off pix cp by simp
    have unf: "bitmap_chunks pixels offset bm buffer s = bitmap_chunks (pixels - ?c) (offset + ?c) bm b ?s"
      using True fill(1) by (simp add: bitmap_chunks.simps [of pixels] Let_def)
    have ch: "chunks 1024 (map bm [?o..<?o + unat pixels]) =
        map bm [?o..<?o + ?n] # chunks 1024 (map bm [?o + ?n..<?o + unat pixels])"
      using chunks_upt [OF p, of bm ?o] c by simp
    show ?thesis
      using unf IH sent off pix cp ch by (simp add: px_events_def)
  next
    case False
    then have "pixels = 0" by (simp add: word_gt_0)
    then show ?thesis by (simp add: bitmap_chunks.simps [of 0] chunks.simps px_events_def)
  qed
qed

section \<open>Chunking, buffer and events\<close>

lemma concat_chunks: "0 < k \<Longrightarrow> concat (chunks k xs) = xs"
  by (induction k xs rule: chunks.induct) (subst chunks.simps, simp)

lemma length_chunks:
  "0 < k \<Longrightarrow> map length (chunks k xs) =
     replicate (length xs div k) k @ (if length xs mod k = 0 then [] else [length xs mod k])"
proof (induction k xs rule: chunks.induct)
  case (1 k xs)
  show ?case
  proof (cases "xs = []")
    case True
    then show ?thesis by (simp add: chunks.simps)
  next
    case False
    show ?thesis
    proof (cases "k \<le> length xs")
      case True
      have d: "length xs div k = Suc ((length xs - k) div k)"
        using True "1.prems" by (simp add: le_div_geq)
      have m: "length xs mod k = (length xs - k) mod k"
        using True "1.prems" by (simp add: le_mod_geq)
      show ?thesis using "1.IH" False True "1.prems" d m
        by (subst chunks.simps) simp
    next
      case le: False
      then show ?thesis using False "1.prems" by (subst chunks.simps) (simp add: chunks.simps)
    qed
  qed
qed

lemma st7789_draw_bitmap_out [trace_simps]:
  "length buffer = 2048 \<Longrightarrow>
   st7789_draw_bitmap x y w h bm buffer s =
     Some (out (addr_window_ev (st7789_spi s) x y (x + w - 1) (y + h - 1) @
          px_events (st7789_spi s) (chunks 1024 (map bm [0..<unat w * unat h]))) s)"
proof -
  assume b: "length buffer = 2048"
  have "unat w * unat h \<le> 65535 * 65535"
    using unat_u16_less [of w] unat_u16_less [of h] by (intro mult_le_mono) simp_all
  then have "unat (0::u32) + unat (ucast w * ucast h :: u32) < 2 ^ 32" by (simp add: unat_pixels)
  then show ?thesis
    using b bitmap_chunks_out [of buffer 0 "ucast w * ucast h"]
    by (simp add: st7789_draw_bitmap_def unat_pixels trace_simps)
qed

section \<open>Refinement and the transfer contract\<close>

lemma bitmap_paints_ctrl:
  assumes "0 < unat w" "0 < unat h" "unat x + unat w \<le> 65536" "unat y + unat h \<le> 65536"
  shows "fb (ctrl_run c (addr_window_ev d x y (x + w - 1) (y + h - 1) @
                        px_events d (chunks 1024 (map bm [0..<unat w * unat h])))) =
         bitmap_spec (unat x) (unat y) (unat w) (unat h) bm (fb c)"
proof -
  have x1: "unat (x + w - 1) = unat x + unat w - 1"
    using assms(1,3) by (simp add: unat_add_minus_one)
  have y1: "unat (y + h - 1) = unat y + unat h - 1"
    using assms(2,4) by (simp add: unat_add_minus_one)
  let ?win = "(unat x, unat x + unat w - 1, unat y, unat y + unat h - 1)"
  have ww: "win_w ?win = unat w" "win_h ?win = unat h"
    using assms(1,2) by (simp_all add: win_w_def win_h_def)
  have "fb (ctrl_run c (addr_window_ev d x y (x + w - 1) (y + h - 1) @
                        px_events d (chunks 1024 (map bm [0..<unat w * unat h])))) =
        paint ?win 0 (map bm [0..<unat w * unat h]) (fb c)"
    using assms(1,2) window_stream [of x "x + w - 1" y "y + h - 1"
        "chunks 1024 (map bm [0..<unat w * unat h])" c d]
    by (simp add: x1 y1 concat_chunks mult.commute)
  also have "\<dots> = bitmap_spec (unat x) (unat y) (unat w) (unat h) bm (fb c)"
  proof (rule ext)
    fix q :: "nat \<times> nat"
    have pe: "paint ?win 0 (map bm [0..<unat w * unat h]) (fb c) q =
       (if in_win ?win q \<and> 0 \<le> idx_of ?win q \<and> idx_of ?win q < 0 + length (map bm [0..<unat w * unat h])
        then map bm [0..<unat w * unat h] ! (idx_of ?win q - 0) else fb c q)"
      by (rule paint_eq) (use assms(1,2) in \<open>simp add: win_w_def win_h_def\<close>)
    show "paint ?win 0 (map bm [0..<unat w * unat h]) (fb c) q =
          bitmap_spec (unat x) (unat y) (unat w) (unat h) bm (fb c) q"
    proof (cases "in_win ?win q")
      case True
      then have "idx_of ?win q < unat w * unat h"
        using in_win_idx(2) [OF True] ww by simp
      then show ?thesis using True ww assms(1,2) pe
        by (cases q) (auto simp: idx_of_def in_win_def bitmap_spec_def)
    next
      case False
      then show ?thesis using assms(1,2) pe
        by (cases q) (auto simp: in_win_def bitmap_spec_def)
    qed
  qed
  finally show ?thesis .
qed

text \<open>
  C3.  \<open>st7789_draw_bitmap\<close> refines blitting a \<open>w\<close> by \<open>h\<close> image: with the module's
  2048-byte buffer, a non-empty rectangle that stays within the 16-bit coordinate range,
  the call returns without a store outside the buffer, and the frame memory afterwards
  holds image pixel \<open>i * w + j\<close> at \<open>(x + j, y + i)\<close> and is unchanged elsewhere.
\<close>
theorem st7789_draw_bitmap_paints:
  assumes "length buffer = 2048"
    and "0 < unat w" "0 < unat h" "unat x + unat w \<le> 65536" "unat y + unat h \<le> 65536"
  shows "map_option (\<lambda>s'. fb (screen c0 s')) (st7789_draw_bitmap x y w h bm buffer s) =
           Some (bitmap_spec (unat x) (unat y) (unat w) (unat h) bm (fb (screen c0 s)))"
  using bitmap_paints_ctrl [OF assms(2-5), of "screen c0 s" "st7789_spi s" bm] assms(1)
  by (simp add: trace_simps)

theorem st7789_draw_bitmap_paints_witness:
  "map_option (\<lambda>s'. fb (screen ctrl0 s'))
      (st7789_draw_bitmap 5 7 2 3 (\<lambda>i. of_nat i) (replicate 2048 0) st7789_state0) =
     Some (bitmap_spec 5 7 2 3 (\<lambda>i. of_nat i) (fb (screen ctrl0 st7789_state0)))"
  using st7789_draw_bitmap_paints [of "replicate 2048 0" 2 3 5 7 ctrl0 "\<lambda>i. of_nat i" st7789_state0]
  by simp

text \<open>
  C4.  \<open>st7789_draw_bitmap\<close> returns, having sent the window and then the image as one
  data transfer per chunk of at most 1024 pixels, in order: the chunks concatenate to
  the image, all but the last hold exactly 1024 pixels.
\<close>
theorem st7789_draw_bitmap_chunked:
  assumes "length buffer = 2048"
  shows "st7789_draw_bitmap x y w h bm buffer s =
           Some (out (addr_window_ev (st7789_spi s) x y (x + w - 1) (y + h - 1) @
                px_events (st7789_spi s) (chunks 1024 (map bm [0..<unat w * unat h]))) s)
         \<and> concat (chunks 1024 (map bm [0..<unat w * unat h])) = map bm [0..<unat w * unat h]
         \<and> map length (chunks 1024 (map bm [0..<unat w * unat h])) =
             replicate (unat w * unat h div 1024) 1024 @
             (if unat w * unat h mod 1024 = 0 then [] else [unat w * unat h mod 1024])"
  using assms by (simp add: st7789_draw_bitmap_out concat_chunks length_chunks)

theorem st7789_draw_bitmap_chunked_witness:
  "map length (chunks 1024 (map (\<lambda>i. of_nat i :: u16) [0..<2500])) = [1024, 1024, 452]"
proof -
  have "map length (chunks 1024 (map (\<lambda>i. of_nat i :: u16) [0..<unat (50::u16) * unat (50::u16)])) =
      replicate (unat (50::u16) * unat (50::u16) div 1024) 1024 @
      (if unat (50::u16) * unat (50::u16) mod 1024 = 0 then [] else [unat (50::u16) * unat (50::u16) mod 1024])"
    using st7789_draw_bitmap_chunked [of "replicate 2048 0" 0 0 50 50 "\<lambda>i. of_nat i" st7789_state0]
    by simp
  then have "map length (chunks 1024 (map (\<lambda>i. of_nat i :: u16) [0..<2500])) = replicate 2 1024 @ [452]"
    by simp
  then show ?thesis by (simp add: numeral_2_eq_2)
qed

text \<open>
  C5.  One pass of the chunk loop stays inside \<open>uint8_t buffer[2048]\<close>: the copy loop
  \<open>for (i = 0; i < chunk; i++)\<close> makes no store past the end of the buffer, the transfer
  length \<open>chunk * 2\<close> is twice the smaller of 1024 and the remaining pixel count (so at
  most the buffer's 2048 bytes), and the bytes it sends are the chunk's pixels, big-endian,
  with no byte left over from before.
\<close>
theorem bitmap_fill_in_bounds:
  assumes "length buffer = 2048" "unat offset + unat (bitmap_chunk pixels) < 2 ^ 32"
  shows "\<exists>b. bitmap_fill 0 (bitmap_chunk pixels) offset bm buffer = Some b \<and> length b = 2048 \<and>
           unat (bitmap_chunk pixels * 2) = 2 * min 1024 (unat pixels) \<and>
           take (unat (bitmap_chunk pixels * 2)) b =
             concat (map (\<lambda>j. be16 (bm j)) [unat offset..<unat offset + unat (bitmap_chunk pixels)])"
proof -
  let ?n = "unat (bitmap_chunk pixels)"
  have n: "?n = min 1024 (unat pixels)" by (rule bitmap_chunk_unat)
  have "?n * unat (2::u32) < 2 ^ LENGTH(32)" using n by simp
  then have "unat (bitmap_chunk pixels * 2) = ?n * unat (2::u32)" by (rule unat_mult_lem [THEN iffD1])
  then have c2: "unat (bitmap_chunk pixels * 2) = 2 * ?n" by simp
  obtain b where "bitmap_fill 0 (bitmap_chunk pixels) offset bm buffer = Some b"
      "take (2 * ?n) b = concat (map (\<lambda>j. be16 (bm j)) [unat offset..<unat offset + ?n])" "length b = 2048"
    using bitmap_fill_prefix [of 0 "bitmap_chunk pixels" buffer offset bm] assms n by auto
  then show ?thesis using c2 n by auto
qed

theorem bitmap_fill_in_bounds_witness:
  "\<exists>b. bitmap_fill 0 (bitmap_chunk 3) 0 (\<lambda>i. of_nat i) (replicate 2048 0) = Some b \<and> length b = 2048 \<and>
     unat (bitmap_chunk 3 * 2) = 6 \<and> take 6 b = [0, 0, 0, 1, 0, 2]"
  using bitmap_fill_in_bounds [of "replicate 2048 0" 0 3 "\<lambda>i. of_nat i"]
  by (simp add: bitmap_chunk_def be16_def hi_byte_def lo_byte_def upt_rec)

text \<open>
  C6.  What \<open>st7789_draw_bitmap\<close> sends does not depend on what the staging buffer held
  before the call.
\<close>
theorem st7789_draw_bitmap_buffer_irrelevant:
  "length b1 = 2048 \<Longrightarrow> length b2 = 2048 \<Longrightarrow>
   st7789_draw_bitmap x y w h bm b1 s = st7789_draw_bitmap x y w h bm b2 s"
  by (simp add: st7789_draw_bitmap_out)

theorem st7789_draw_bitmap_buffer_irrelevant_witness:
  "st7789_draw_bitmap 0 0 4 4 (\<lambda>i. of_nat i) (replicate 2048 0) st7789_state0 =
   st7789_draw_bitmap 0 0 4 4 (\<lambda>i. of_nat i) (replicate 2048 255) st7789_state0"
  by (rule st7789_draw_bitmap_buffer_irrelevant) simp_all

end
