(* ===== verification/Circle.thy ===== *)
theory Circle
  imports Raster "HOL-Library.Monad_Syntax"
begin

text \<open>
  The two circle primitives of \<open>st7789.c\<close> (lines 223--276), both the midpoint
  algorithm on \<open>int16_t\<close> variables \<open>x\<close>, \<open>y\<close> and the decision value \<open>d\<close>.  C evaluates
  every expression in \<open>int\<close> and converts the result back to \<open>int16_t\<close>, which on the
  target is wrap-around: the variables are \<open>16 word\<close>s read with \<open>sint\<close>, every update
  is word arithmetic, and every comparison compares the \<open>int\<close> values.  The span loops
  of \<open>st7789_fill_circle\<close> compare an \<open>int16_t\<close> counter with the \<open>int\<close> value
  \<open>x0 + y\<close>: when that value is 32767 or more the counter wraps before it passes it and
  the loop never ends.  The loops are therefore \<open>partial_function (option)\<close>, \<open>None\<close>
  being the run that never returns.
\<close>

section \<open>Operations\<close>

text \<open>The eight \<open>st7789_draw_pixel\<close> calls of one step (lines 231--238, 16-bit sums).\<close>

definition circle_octants :: "u16 \<Rightarrow> u16 \<Rightarrow> i16 \<Rightarrow> i16 \<Rightarrow> u16 \<Rightarrow> st7789_state \<Rightarrow> st7789_state" where
  "circle_octants x0 y0 x y color s =
     (let s = st7789_draw_pixel (x0 + x) (y0 + y) color s;
          s = st7789_draw_pixel (x0 - x) (y0 + y) color s;
          s = st7789_draw_pixel (x0 + x) (y0 - y) color s;
          s = st7789_draw_pixel (x0 - x) (y0 - y) color s;
          s = st7789_draw_pixel (x0 + y) (y0 + x) color s;
          s = st7789_draw_pixel (x0 - y) (y0 + x) color s;
          s = st7789_draw_pixel (x0 + y) (y0 - x) color s
      in st7789_draw_pixel (x0 - y) (y0 - x) color s)"

text \<open>The midpoint step (lines 240--245 and 268--273): the new \<open>d\<close> and \<open>y\<close>.\<close>

definition circle_next :: "i16 \<Rightarrow> i16 \<Rightarrow> i16 \<Rightarrow> i16 \<times> i16" where
  "circle_next x y d =
     (if sint d < 0 then (d + 4 * x + 6, y) else (d + 4 * (x - y) + 10, y - 1))"

text \<open>
  The \<open>while (x <= y)\<close> loop of \<open>st7789_draw_circle\<close> (lines 230--247); \<open>xi\<close>,
  \<open>yi\<close> and \<open>d\<close> are the C variables \<open>x\<close>, \<open>y\<close> and \<open>d\<close>.
\<close>

partial_function (option) draw_circle_loop ::
    "u16 \<Rightarrow> u16 \<Rightarrow> u16 \<Rightarrow> i16 \<Rightarrow> i16 \<Rightarrow> i16 \<Rightarrow> st7789_state \<Rightarrow> st7789_state option" where
  "draw_circle_loop x0 y0 color xi yi d s =
     (if sint xi \<le> sint yi then
        (case circle_next xi yi d of (d', yi') \<Rightarrow>
           draw_circle_loop x0 y0 color (xi + 1) yi' d' (circle_octants x0 y0 xi yi color s))
      else Some s)"

definition st7789_draw_circle :: "u16 \<Rightarrow> u16 \<Rightarrow> u16 \<Rightarrow> u16 \<Rightarrow> st7789_state \<Rightarrow> st7789_state option" where
  "st7789_draw_circle x0 y0 r color s =
     (let x = 0; y = r; d = 3 - 2 * r in draw_circle_loop x0 y0 color x y d s)"

text \<open>
  \<open>for (int16_t i = x0 - y; i <= x0 + y; i++) { draw (i, ya); draw (i, yb); }\<close>
  (lines 258--266): the bound \<open>x0 + y\<close> is an \<open>int\<close>.
\<close>

partial_function (option) fill_span ::
    "i16 \<Rightarrow> u16 \<Rightarrow> i16 \<Rightarrow> u16 \<Rightarrow> u16 \<Rightarrow> u16 \<Rightarrow> st7789_state \<Rightarrow> st7789_state option" where
  "fill_span i x0 y ya yb color s =
     (if sint i \<le> uint x0 + sint y then
        fill_span (i + 1) x0 y ya yb color (st7789_draw_pixel i yb color (st7789_draw_pixel i ya color s))
      else Some s)"

partial_function (option) fill_circle_loop ::
    "u16 \<Rightarrow> u16 \<Rightarrow> u16 \<Rightarrow> i16 \<Rightarrow> i16 \<Rightarrow> i16 \<Rightarrow> st7789_state \<Rightarrow> st7789_state option" where
  "fill_circle_loop x0 y0 color xi yi d s =
     (if sint xi \<le> sint yi then
        do {
          s \<leftarrow> fill_span (x0 - yi) x0 yi (y0 + xi) (y0 - xi) color s;
          s \<leftarrow> fill_span (x0 - xi) x0 xi (y0 + yi) (y0 - yi) color s;
          (case circle_next xi yi d of (d', yi') \<Rightarrow> fill_circle_loop x0 y0 color (xi + 1) yi' d' s)
        }
      else Some s)"

definition st7789_fill_circle :: "u16 \<Rightarrow> u16 \<Rightarrow> u16 \<Rightarrow> u16 \<Rightarrow> st7789_state \<Rightarrow> st7789_state option" where
  "st7789_fill_circle x0 y0 r color s =
     (let x = 0; y = r; d = 3 - 2 * r in fill_circle_loop x0 y0 color x y d s)"


section \<open>The exact algorithm\<close>

text \<open>
  The midpoint algorithm on unbounded integers, as spec section 4.3 describes it: the
  list of the offsets \<open>(x, y)\<close> of the first octant that the loop visits, from the top
  of the circle until \<open>x\<close> passes \<open>y\<close>.
\<close>

function circle_ref :: "int \<Rightarrow> int \<Rightarrow> int \<Rightarrow> (int \<times> int) list" where
  "circle_ref x y d =
     (if x \<le> y then
        (x, y) # (if d < 0 then circle_ref (x + 1) y (d + 4 * x + 6)
                  else circle_ref (x + 1) (y - 1) (d + 4 * (x - y) + 10))
      else [])"
  by pat_completeness auto
termination
  by (relation "measure (\<lambda>(x, y, d). nat (y - x + 1))") auto

declare circle_ref.simps [simp del]

text \<open>The eight pixels of one step, and a sequence of \<open>st7789_draw_pixel\<close> calls.\<close>

definition octant_px :: "u16 \<Rightarrow> u16 \<Rightarrow> i16 \<Rightarrow> i16 \<Rightarrow> (u16 \<times> u16) list" where
  "octant_px x0 y0 x y =
     [(x0 + x, y0 + y), (x0 - x, y0 + y), (x0 + x, y0 - y), (x0 - x, y0 - y),
      (x0 + y, y0 + x), (x0 - y, y0 + x), (x0 + y, y0 - x), (x0 - y, y0 - x)]"

definition draw_pixels :: "(u16 \<times> u16) list \<Rightarrow> u16 \<Rightarrow> st7789_state \<Rightarrow> st7789_state" where
  "draw_pixels ps color s = foldl (\<lambda>s (x, y). st7789_draw_pixel x y color s) s ps"

text \<open>The pixels of a circle of radius \<open>r\<close> about \<open>(x0, y0)\<close>, in drawing order.\<close>

definition circle_pixels :: "u16 \<Rightarrow> u16 \<Rightarrow> u16 \<Rightarrow> (u16 \<times> u16) list" where
  "circle_pixels x0 y0 r =
     concat (map (\<lambda>(x, y). octant_px x0 y0 (word_of_int x) (word_of_int y))
                 (circle_ref 0 (uint r) (3 - 2 * uint r)))"

text \<open>A span: columns \<open>lo..hi\<close> of rows \<open>ya\<close> and \<open>yb\<close>, column by column.\<close>

definition span_px :: "int \<Rightarrow> int \<Rightarrow> u16 \<Rightarrow> u16 \<Rightarrow> (u16 \<times> u16) list" where
  "span_px lo hi ya yb = concat (map (\<lambda>k. [(word_of_int k, ya), (word_of_int k, yb)]) [lo..hi])"

definition disc_pixels :: "u16 \<Rightarrow> u16 \<Rightarrow> u16 \<Rightarrow> (u16 \<times> u16) list" where
  "disc_pixels x0 y0 r =
     concat (map (\<lambda>(x, y).
         span_px (uint x0 - y) (uint x0 + y) (y0 + word_of_int x) (y0 - word_of_int x) @
         span_px (uint x0 - x) (uint x0 + x) (y0 + word_of_int y) (y0 - word_of_int y))
       (circle_ref 0 (uint r) (3 - 2 * uint r)))"

text \<open>The bounds the exact algorithm keeps for a radius \<open>R\<close>.\<close>

definition circle_inv :: "int \<Rightarrow> int \<Rightarrow> int \<Rightarrow> int \<Rightarrow> bool" where
  "circle_inv R x y d \<longleftrightarrow>
     0 \<le> x \<and> - 1 \<le> y \<and> y \<le> R \<and> x \<le> R + 1 \<and> (x \<le> y \<longrightarrow> - 4 * R \<le> d \<and> d \<le> 4 * x + 3)"

section \<open>Termination\<close>

lemma circle_next_step:
  assumes "0 \<le> sint x" "sint x \<le> sint y" "sint y = 32767 \<longrightarrow> x = 0 \<and> 0 \<le> sint d"
    and "circle_next x y d = (d', y')"
  shows "sint (x + 1) = sint x + 1" "sint y - 1 \<le> sint y'" "sint y' \<le> sint y" "sint y' < 32767"
proof -
  have x: "sint x < 32767"
    using assms(1-3) sint_i16_range [of y] by (cases "sint y = 32767") auto
  then show "sint (x + 1) = sint x + 1" by (rule sint_i16_succ)
  have "(y' = y \<and> sint d < 0) \<or> y' = y - 1"
    using assms(4) by (auto simp: circle_next_def split: if_splits)
  moreover have "sint (y - 1) = sint y - 1"
    using assms(1,2) by (intro sint_i16_pred) simp
  ultimately show "sint y - 1 \<le> sint y'" "sint y' \<le> sint y" "sint y' < 32767"
    using assms(3) sint_i16_range [of y] by auto
qed

lemma draw_circle_loop_total:
  "0 \<le> sint x \<Longrightarrow> (sint y = 32767 \<longrightarrow> x = 0 \<and> 0 \<le> sint d) \<Longrightarrow>
   \<exists>s'. draw_circle_loop x0 y0 color x y d s = Some s'"
proof (induction "nat (sint y - sint x + 1)" arbitrary: x y d s rule: less_induct)
  case less
  show ?case
  proof (cases "sint x \<le> sint y")
    case False
    then show ?thesis by (subst draw_circle_loop.simps) simp
  next
    case True
    obtain d' y' where n: "circle_next x y d = (d', y')" by (cases "circle_next x y d")
    note st = circle_next_step [OF less.prems(1) True less.prems(2) n]
    have "\<exists>s'. draw_circle_loop x0 y0 color (x + 1) y' d' (circle_octants x0 y0 x y color s) = Some s'"
      by (rule less.hyps) (use st less.prems(1) True in auto)
    then show ?thesis using True n by (subst draw_circle_loop.simps) simp
  qed
qed

lemma draw_circle_returns: "\<exists>s'. st7789_draw_circle x0 y0 r color s = Some s'"
  unfolding st7789_draw_circle_def Let_def
  by (rule draw_circle_loop_total) (simp_all add: sint_32767)

text \<open>
  C11.  \<open>st7789_draw_circle\<close> returns for every centre and radius: while the loop
  runs \<open>0 \<le> x\<close> and \<open>y - x\<close> decreases, and \<open>x + 1\<close> cannot wrap because
  \<open>y = 32767\<close> only on the first step.
\<close>
theorem st7789_draw_circle_terminates:
  "\<exists>s'. st7789_draw_circle x0 y0 r color s = Some s'"
  by (rule draw_circle_returns)

lemma fill_span_total:
  "uint x0 + sint y < 32767 \<Longrightarrow> \<exists>s'. fill_span i x0 y ya yb color s = Some s'"
proof (induction "nat (uint x0 + sint y + 1 - sint i)" arbitrary: i s rule: less_induct)
  case less
  show ?case
  proof (cases "sint i \<le> uint x0 + sint y")
    case False
    then show ?thesis by (subst fill_span.simps) simp
  next
    case True
    then have "sint (i + 1) = sint i + 1" using less.prems by (intro sint_i16_succ) simp
    then have "\<exists>s'. fill_span (i + 1) x0 y ya yb color
        (st7789_draw_pixel i yb color (st7789_draw_pixel i ya color s)) = Some s'"
      using True less.prems by (intro less.hyps) simp_all
    then show ?thesis using True by (subst fill_span.simps) simp
  qed
qed

lemma fill_span_diverges:
  assumes "32767 \<le> uint x0 + sint y"
  shows "fill_span i x0 y ya yb color s = None"
proof -
  have "fill_span i x0 y ya yb color s = Some s' \<Longrightarrow> 32767 \<le> uint x0 + sint y \<longrightarrow> False" for s'
    apply (erule fill_span.raw_induct [rotated, where P = "\<lambda>i x0 y ya yb color s s'. 32767 \<le> uint x0 + sint y \<longrightarrow> False"])
    subgoal for span i x0 y ya yb color s s'
      using sint_i16_range [of i] by (auto split: if_splits)
    done
  then show ?thesis using assms by (cases "fill_span i x0 y ya yb color s") auto
qed

lemma fill_circle_loop_total:
  "0 \<le> sint x \<Longrightarrow> (sint y = 32767 \<longrightarrow> x = 0 \<and> 0 \<le> sint d) \<Longrightarrow> uint x0 + sint y < 32767 \<Longrightarrow>
   \<exists>s'. fill_circle_loop x0 y0 color x y d s = Some s'"
proof (induction "nat (sint y - sint x + 1)" arbitrary: x y d s rule: less_induct)
  case less
  show ?case
  proof (cases "sint x \<le> sint y")
    case False
    then show ?thesis by (subst fill_circle_loop.simps) simp
  next
    case True
    obtain d' y' where n: "circle_next x y d = (d', y')" by (cases "circle_next x y d")
    note st = circle_next_step [OF less.prems(1) True less.prems(2) n]
    obtain s1 where s1: "fill_span (x0 - y) x0 y (y0 + x) (y0 - x) color s = Some s1"
      using fill_span_total [OF less.prems(3)] by blast
    have "uint x0 + sint x < 32767" using less.prems(3) True by simp
    then obtain s2 where s2: "fill_span (x0 - x) x0 x (y0 + y) (y0 - y) color s1 = Some s2"
      using fill_span_total by blast
    have "\<exists>s'. fill_circle_loop x0 y0 color (x + 1) y' d' s2 = Some s'"
    proof (rule less.hyps)
      show "nat (sint y' - sint (x + 1) + 1) < nat (sint y - sint x + 1)"
        using st(1,3) True by simp
      show "0 \<le> sint (x + 1)" using st(1) less.prems(1) by simp
      show "sint y' = 32767 \<longrightarrow> x + 1 = 0 \<and> 0 \<le> sint d'" using st(4) by simp
      show "uint x0 + sint y' < 32767" using st(3) less.prems(3) by simp
    qed
    then show ?thesis using True n s1 s2 by (subst fill_circle_loop.simps) simp
  qed
qed

lemma fill_circle_loop_diverges:
  "sint x \<le> sint y \<Longrightarrow> 32767 \<le> uint x0 + sint y \<Longrightarrow> fill_circle_loop x0 y0 color x y d s = None"
  by (subst fill_circle_loop.simps) (simp add: fill_span_diverges)

lemma fill_circle_returns:
  "(\<exists>s'. st7789_fill_circle x0 y0 r color s = Some s') \<longleftrightarrow>
     unat x0 + unat r < 32767 \<or> 32768 \<le> unat r"
proof -
  have iff: "(unat x0 + unat r < 32767 \<or> 32768 \<le> unat r) \<longleftrightarrow>
      (uint x0 + uint r < 32767 \<or> 32768 \<le> uint r)"
    unfolding uint_nat by linarith
  have "(\<exists>s'. st7789_fill_circle x0 y0 r color s = Some s') \<longleftrightarrow>
      uint x0 + uint r < 32767 \<or> 32768 \<le> uint r"
  proof (cases "32768 \<le> uint r")
    case True
    then have "sint r < 0" using uint_lt2p [of r] by (simp add: sint_i16_uint)
    then have "st7789_fill_circle x0 y0 r color s = Some s"
      unfolding st7789_fill_circle_def Let_def by (subst fill_circle_loop.simps) simp
    then show ?thesis using True by simp
  next
    case False
    then have r: "sint r = uint r" by (simp add: sint_i16_uint)
    show ?thesis
    proof (cases "uint x0 + uint r < 32767")
      case True
      then have "uint r < 32767" using uint_ge_0 [of x0] by linarith
      then have "\<exists>s'. fill_circle_loop x0 y0 color 0 r (3 - 2 * r) s = Some s'"
        by (intro fill_circle_loop_total) (use True r in simp_all)
      then show ?thesis using True by (simp add: st7789_fill_circle_def)
    next
      case c: False
      have "fill_circle_loop x0 y0 color 0 r (3 - 2 * r) s = None"
        by (rule fill_circle_loop_diverges) (use c r in simp_all)
      then show ?thesis using c False by (simp add: st7789_fill_circle_def)
    qed
  qed
  then show ?thesis using iff by simp
qed


text \<open>
  C12.  \<open>st7789_fill_circle\<close> returns exactly when \<open>x0 + r < 32767\<close> or the radius,
  read as \<open>int16_t\<close>, is negative (\<open>r \<ge> 32768\<close>, nothing drawn); otherwise the
  first span's \<open>int16_t\<close> counter wraps from 32767 to -32768 before it passes the
  \<open>int\<close> bound \<open>x0 + r\<close> and the call never returns.
\<close>
theorem st7789_fill_circle_returns_iff:
  "(\<exists>s'. st7789_fill_circle x0 y0 r color s = Some s') \<longleftrightarrow>
     unat x0 + unat r < 32767 \<or> 32768 \<le> unat r"
  by (rule fill_circle_returns)

end
