(* ===== verification/Midpoint.thy ===== *)
theory Midpoint
  imports Circle
begin

text \<open>
  What the two circle primitives draw.  For a radius up to 8191 every value the
  \<open>int16_t\<close> variables of \<open>st7789_draw_circle\<close> and \<open>st7789_fill_circle\<close> take lies
  in range (the bounds are \<open>circle_inv\<close>: \<open>-4r \<le> d \<le> 4x + 3\<close> while the loop runs),
  so the word loops visit exactly the offsets of the exact algorithm \<open>circle_ref\<close>
  and draw \<open>circle_pixels\<close> and \<open>disc_pixels\<close>.  From the exact algorithm's
  invariant \<open>d = 2 (x + 1)^2 + y^2 + (y - 1)^2 - 2 r^2\<close> every point it visits lies
  in the annulus \<open>r^2 - 3r - 1 \<le> x^2 + y^2 \<le> r^2 + r\<close>; the eight calls of a
  step make the outline symmetric; the spans of the filled disc pass through every
  point of the outline.
\<close>

section \<open>Agreement with the exact algorithm\<close>

lemma circle_inv_init: "0 \<le> R \<Longrightarrow> circle_inv R 0 R (3 - 2 * R)"
  by (simp add: circle_inv_def)

lemma circle_inv_neg:
  "circle_inv R x y d \<Longrightarrow> x \<le> y \<Longrightarrow> d < 0 \<Longrightarrow> circle_inv R (x + 1) y (d + 4 * x + 6)"
  by (simp add: circle_inv_def)

lemma circle_inv_nonneg:
  "circle_inv R x y d \<Longrightarrow> x \<le> y \<Longrightarrow> 0 \<le> d \<Longrightarrow> circle_inv R (x + 1) (y - 1) (d + 4 * (x - y) + 10)"
  by (simp add: circle_inv_def)

lemma circle_inv_sint:
  assumes "circle_inv R x y d" "R \<le> 8191"
  shows "sint (word_of_int x :: i16) = x" "sint (word_of_int y :: i16) = y"
    "x \<le> y \<Longrightarrow> sint (word_of_int d :: i16) = d"
  using assms by (simp_all add: circle_inv_def sint_of_int_i16)

lemma circle_next_of_int:
  "sint (word_of_int d :: i16) = d \<Longrightarrow>
   circle_next (word_of_int x) (word_of_int y) (word_of_int d) =
     (if d < 0 then (word_of_int (d + 4 * x + 6), word_of_int y)
      else (word_of_int (d + 4 * (x - y) + 10), word_of_int (y - 1)))"
  by (simp add: circle_next_def)

lemma circle_octants_px: "circle_octants x0 y0 x y color s = draw_pixels (octant_px x0 y0 x y) color s"
  by (simp add: circle_octants_def draw_pixels_def octant_px_def)

lemma draw_pixels_Nil [simp]: "draw_pixels [] color s = s"
  by (simp add: draw_pixels_def)

lemma draw_pixels_Cons [simp]:
  "draw_pixels ((x, y) # ps) color s = draw_pixels ps color (st7789_draw_pixel x y color s)"
  by (simp add: draw_pixels_def)

lemma draw_pixels_append [simp]:
  "draw_pixels (ps @ qs) color s = draw_pixels qs color (draw_pixels ps color s)"
  by (simp add: draw_pixels_def)

lemma draw_circle_loop_ref:
  "circle_inv R x y d \<Longrightarrow> R \<le> 8191 \<Longrightarrow>
   draw_circle_loop x0 y0 color (word_of_int x) (word_of_int y) (word_of_int d) s =
     Some (draw_pixels (concat (map (\<lambda>(x, y). octant_px x0 y0 (word_of_int x) (word_of_int y))
                                    (circle_ref x y d))) color s)"
proof (induction x y d arbitrary: s rule: circle_ref.induct)
  case (1 x y d)
  note w = circle_inv_sint [OF "1.prems"]
  show ?case
  proof (cases "x \<le> y")
    case False
    then show ?thesis using w by (subst draw_circle_loop.simps) (simp add: circle_ref.simps)
  next
    case xy: True
    show ?thesis
    proof (cases "d < 0")
      case True
      have "circle_inv R (x + 1) y (d + 4 * x + 6)" using circle_inv_neg "1.prems"(1) xy True by blast
      note IH = "1.IH"(1) [OF xy True this "1.prems"(2)]
      show ?thesis using xy True w IH
        by (subst draw_circle_loop.simps) (simp add: circle_next_of_int circle_octants_px circle_ref.simps [of x y d])
    next
      case False
      have "circle_inv R (x + 1) (y - 1) (d + 4 * (x - y) + 10)"
        using circle_inv_nonneg "1.prems"(1) xy False by simp
      note IH = "1.IH"(2) [OF xy False this "1.prems"(2)]
      show ?thesis using xy False w IH
        by (subst draw_circle_loop.simps) (simp add: circle_next_of_int circle_octants_px circle_ref.simps [of x y d])
    qed
  qed
qed

lemma draw_pixels_fb:
  "fb (screen c0 (draw_pixels ps color s)) =
     (\<lambda>q. if q \<in> set (map (\<lambda>(a, b). (unat a, unat b)) ps) then color else fb (screen c0 s) q)"
proof (induction ps arbitrary: s)
  case Nil
  then show ?case by simp
next
  case (Cons p ps)
  then show ?case by (cases p) (auto simp: draw_pixel_fb fun_eq_iff)
qed

lemma draw_circle_pixels:
  "unat r \<le> 8191 \<Longrightarrow> st7789_draw_circle x0 y0 r color s = Some (draw_pixels (circle_pixels x0 y0 r) color s)"
proof -
  assume r: "unat r \<le> 8191"
  then have R: "uint r \<le> 8191" unfolding uint_nat by linarith
  have "draw_circle_loop x0 y0 color (word_of_int 0) (word_of_int (uint r)) (word_of_int (3 - 2 * uint r)) s =
      Some (draw_pixels (circle_pixels x0 y0 r) color s)"
    unfolding circle_pixels_def by (rule draw_circle_loop_ref) (use R in \<open>simp_all add: circle_inv_init\<close>)
  then show ?thesis by (simp add: st7789_draw_circle_def)
qed

section \<open>Shape of the circle\<close>

lemma octant_px_offsets:
  "(x0 + a, y0 + b) \<in> set (octant_px x0 y0 x y) \<longleftrightarrow>
     (a, b) \<in> {(x, y), (- x, y), (x, - y), (- x, - y), (y, x), (- y, x), (y, - x), (- y, - x)}"
  unfolding octant_px_def diff_conv_add_uminus by (simp only: set_simps insert_iff prod.inject add_left_cancel singleton_iff empty_iff)

lemma octant_px_symmetric:
  assumes "(x0 + a, y0 + b) \<in> set (octant_px x0 y0 x y)"
  shows "(x0 + - a, y0 + b) \<in> set (octant_px x0 y0 x y) \<and> (x0 + a, y0 + - b) \<in> set (octant_px x0 y0 x y) \<and>
         (x0 + b, y0 + a) \<in> set (octant_px x0 y0 x y)"
  using assms unfolding octant_px_offsets
  by (elim insertE emptyE) (simp_all only: prod.inject minus_minus insert_iff simp_thms)

lemma octant_px_sub_circle_pixels:
  "(x, y) \<in> set (circle_ref 0 (uint r) (3 - 2 * uint r)) \<Longrightarrow>
     set (octant_px x0 y0 (word_of_int x) (word_of_int y)) \<subseteq> set (circle_pixels x0 y0 r)"
  unfolding circle_pixels_def by force

lemma circle_pixels_symmetric:
  assumes "(x0 + a, y0 + b) \<in> set (circle_pixels x0 y0 r)"
  shows "(x0 - a, y0 + b) \<in> set (circle_pixels x0 y0 r) \<and> (x0 + a, y0 - b) \<in> set (circle_pixels x0 y0 r) \<and>
     (x0 + b, y0 + a) \<in> set (circle_pixels x0 y0 r)"
proof -
  obtain x y where xy: "(x, y) \<in> set (circle_ref 0 (uint r) (3 - 2 * uint r))"
    and m: "(x0 + a, y0 + b) \<in> set (octant_px x0 y0 (word_of_int x) (word_of_int y))"
    using assms unfolding circle_pixels_def by auto
  show ?thesis
    using octant_px_symmetric [OF m] octant_px_sub_circle_pixels [OF xy, of x0 y0]
    unfolding diff_conv_add_uminus by blast
qed

section \<open>The filled disc\<close>

lemma span_px_step:
  "span_px lo hi ya yb =
     (if lo \<le> hi then (word_of_int lo, ya) # (word_of_int lo, yb) # span_px (lo + 1) hi ya yb else [])"
  by (simp add: span_px_def upto_rec1)

lemma span_px_mem:
  "lo \<le> k \<Longrightarrow> k \<le> hi \<Longrightarrow> (word_of_int k, ya) \<in> set (span_px lo hi ya yb) \<and> (word_of_int k, yb) \<in> set (span_px lo hi ya yb)"
  by (auto simp: span_px_def)

lemma fill_span_px:
  "uint x0 + sint y < 32767 \<Longrightarrow>
   fill_span i x0 y ya yb color s = Some (draw_pixels (span_px (sint i) (uint x0 + sint y) ya yb) color s)"
proof (induction "nat (uint x0 + sint y + 1 - sint i)" arbitrary: i s rule: less_induct)
  case less
  show ?case
  proof (cases "sint i \<le> uint x0 + sint y")
    case False
    then show ?thesis by (subst fill_span.simps) (simp add: span_px_step [of "sint i"])
  next
    case True
    then have i: "sint (i + 1) = sint i + 1" using less.prems by (intro sint_i16_succ) simp
    have "fill_span (i + 1) x0 y ya yb color (st7789_draw_pixel i yb color (st7789_draw_pixel i ya color s)) =
        Some (draw_pixels (span_px (sint (i + 1)) (uint x0 + sint y) ya yb) color
                (st7789_draw_pixel i yb color (st7789_draw_pixel i ya color s)))"
      using True less.prems i by (intro less.hyps) simp_all
    then show ?thesis using True i by (subst fill_span.simps) (simp add: span_px_step [of "sint i"])
  qed
qed

lemma circle_inv_span:
  assumes "circle_inv R x y d" "R \<le> 8191" "uint (x0::u16) + R < 32767" "0 \<le> R"
  shows "sint (x0 - word_of_int y) = uint x0 - y" "sint (x0 - word_of_int x) = uint x0 - x"
proof -
  have x0: "x0 - word_of_int k = word_of_int (uint x0 - k)" for k
    by (simp only: of_int_diff) simp
  have b: "0 \<le> x" "- 1 \<le> y" "y \<le> R" "x \<le> R + 1" using assms(1) by (simp_all add: circle_inv_def)
  have "sint (word_of_int (uint x0 - y) :: i16) = uint x0 - y"
    using b assms(2-4) uint_ge_0 [of x0] by (intro sint_of_int_i16) linarith+
  then show "sint (x0 - word_of_int y) = uint x0 - y" by (simp only: x0)
  have "sint (word_of_int (uint x0 - x) :: i16) = uint x0 - x"
    using b assms(2-4) uint_ge_0 [of x0] by (intro sint_of_int_i16) linarith+
  then show "sint (x0 - word_of_int x) = uint x0 - x" by (simp only: x0)
qed

lemma fill_circle_loop_ref:
  "circle_inv R x y d \<Longrightarrow> R \<le> 8191 \<Longrightarrow> uint x0 + R < 32767 \<Longrightarrow> 0 \<le> R \<Longrightarrow>
   fill_circle_loop x0 y0 color (word_of_int x) (word_of_int y) (word_of_int d) s =
     Some (draw_pixels (concat (map (\<lambda>(x, y).
         span_px (uint x0 - y) (uint x0 + y) (y0 + word_of_int x) (y0 - word_of_int x) @
         span_px (uint x0 - x) (uint x0 + x) (y0 + word_of_int y) (y0 - word_of_int y))
       (circle_ref x y d))) color s)"
proof (induction x y d arbitrary: s rule: circle_ref.induct)
  case (1 x y d)
  note w = circle_inv_sint [OF "1.prems"(1,2)]
  note sp = circle_inv_span [OF "1.prems"]
  show ?case
  proof (cases "x \<le> y")
    case False
    then show ?thesis using w by (subst fill_circle_loop.simps) (simp add: circle_ref.simps)
  next
    case xy: True
    have hy: "uint x0 + y < 32767" and hx: "uint x0 + x < 32767"
      using "1.prems" xy by (auto simp: circle_inv_def)
    note spans = fill_span_px [of x0 "word_of_int y"] fill_span_px [of x0 "word_of_int x"]
    show ?thesis
    proof (cases "d < 0")
      case True
      have "circle_inv R (x + 1) y (d + 4 * x + 6)" using circle_inv_neg "1.prems"(1) xy True by blast
      note IH = "1.IH"(1) [OF xy True this "1.prems"(2-4)]
      show ?thesis using xy True w sp hx hy IH
        by (subst fill_circle_loop.simps) (simp add: spans circle_next_of_int circle_ref.simps [of x y d])
    next
      case False
      have "circle_inv R (x + 1) (y - 1) (d + 4 * (x - y) + 10)"
        using circle_inv_nonneg "1.prems"(1) xy False by simp
      note IH = "1.IH"(2) [OF xy False this "1.prems"(2-4)]
      show ?thesis using xy False w sp hx hy IH
        by (subst fill_circle_loop.simps) (simp add: spans circle_next_of_int circle_ref.simps [of x y d])
    qed
  qed
qed

section \<open>Accuracy and coverage\<close>

lemma circle_F_neg:
  "(2 * (x + 1)\<^sup>2 + y\<^sup>2 + (y - 1)\<^sup>2 - 2 * R\<^sup>2) + 4 * x + 6 =
   2 * (x + 1 + 1)\<^sup>2 + y\<^sup>2 + (y - 1)\<^sup>2 - 2 * (R::int)\<^sup>2"
  by (simp add: power2_eq_square algebra_simps)

lemma circle_F_nonneg:
  "(2 * (x + 1)\<^sup>2 + y\<^sup>2 + (y - 1)\<^sup>2 - 2 * R\<^sup>2) + 4 * (x - y) + 10 =
   2 * (x + 1 + 1)\<^sup>2 + (y - 1)\<^sup>2 + (y - 1 - 1)\<^sup>2 - 2 * (R::int)\<^sup>2"
  by (simp add: power2_eq_square algebra_simps)

lemma circle_ref_annulus:
  "circle_inv R x y d \<Longrightarrow> d = 2 * (x + 1)\<^sup>2 + y\<^sup>2 + (y - 1)\<^sup>2 - 2 * R\<^sup>2 \<Longrightarrow>
   (a, b) \<in> set (circle_ref x y d) \<Longrightarrow>
   R\<^sup>2 - 3 * R - 1 \<le> a\<^sup>2 + b\<^sup>2 \<and> a\<^sup>2 + b\<^sup>2 \<le> R\<^sup>2 + R \<and> 0 \<le> a \<and> a \<le> b"
proof (induction x y d rule: circle_ref.induct)
  case (1 x y d)
  show ?case
  proof (cases "x \<le> y")
    case False
    then show ?thesis using "1.prems"(3) by (simp add: circle_ref.simps)
  next
    case xy: True
    show ?thesis
    proof (cases "(a, b) = (x, y)")
      case True
      have e: "2 * (x + 1)\<^sup>2 + y\<^sup>2 + (y - 1)\<^sup>2 = 2 * (x\<^sup>2 + y\<^sup>2) + 4 * x - 2 * y + 3"
        by (simp add: power2_eq_square algebra_simps)
      have b: "0 \<le> x" "y \<le> R" "- 4 * R \<le> d" "d \<le> 4 * x + 3"
        using "1.prems"(1) xy by (simp_all add: circle_inv_def)
      show ?thesis using True xy e b "1.prems"(2) by auto
    next
      case False
      show ?thesis
      proof (cases "d < 0")
        case True
        have "(a, b) \<in> set (circle_ref (x + 1) y (d + 4 * x + 6))"
          using "1.prems"(3) False xy True by (auto simp: circle_ref.simps [of x y d])
        moreover have "circle_inv R (x + 1) y (d + 4 * x + 6)" using circle_inv_neg "1.prems"(1) xy True by blast
        ultimately show ?thesis using "1.IH"(1) [OF xy True] "1.prems"(2) circle_F_neg by simp
      next
        case nn: False
        have "(a, b) \<in> set (circle_ref (x + 1) (y - 1) (d + 4 * (x - y) + 10))"
          using "1.prems"(3) False xy nn by (auto simp: circle_ref.simps [of x y d])
        moreover have "circle_inv R (x + 1) (y - 1) (d + 4 * (x - y) + 10)"
          using circle_inv_nonneg "1.prems"(1) xy nn by simp
        ultimately show ?thesis using "1.IH"(2) [OF xy nn] "1.prems"(2) circle_F_nonneg by simp
      qed
    qed
  qed
qed

lemma octant_px_of_int:
  "octant_px x0 y0 (word_of_int x) (word_of_int y) =
     map (\<lambda>(a, b). (x0 + word_of_int a, y0 + word_of_int b))
       [(x, y), (- x, y), (x, - y), (- x, - y), (y, x), (- y, x), (y, - x), (- y, - x)]"
  by (simp only: octant_px_def list.map prod.case of_int_minus diff_conv_add_uminus)


lemma circle_inv_start:
  "0 \<le> R \<Longrightarrow> circle_inv R 0 R (3 - 2 * R) \<and> 3 - 2 * R = 2 * (0 + 1)\<^sup>2 + R\<^sup>2 + (R - 1)\<^sup>2 - 2 * R\<^sup>2"
  by (simp add: circle_inv_def power2_eq_square algebra_simps)

lemma circle_pixels_offsets:
  assumes "p \<in> set (circle_pixels x0 y0 r)"
  shows "\<exists>a b. p = (x0 + word_of_int a, y0 + word_of_int b) \<and>
           (uint r)\<^sup>2 - 3 * uint r - 1 \<le> a\<^sup>2 + b\<^sup>2 \<and> a\<^sup>2 + b\<^sup>2 \<le> (uint r)\<^sup>2 + uint r"
proof -
  obtain x y where xy: "(x, y) \<in> set (circle_ref 0 (uint r) (3 - 2 * uint r))"
    and p: "p \<in> set (octant_px x0 y0 (word_of_int x) (word_of_int y))"
    using assms unfolding circle_pixels_def by auto
  note st = circle_inv_start [OF uint_ge_0, of r, THEN conjunct1]
    circle_inv_start [OF uint_ge_0, of r, THEN conjunct2]
  have ann: "(uint r)\<^sup>2 - 3 * uint r - 1 \<le> x\<^sup>2 + y\<^sup>2 \<and> x\<^sup>2 + y\<^sup>2 \<le> (uint r)\<^sup>2 + uint r"
    using circle_ref_annulus [OF st xy] by blast
  have "p \<in> set (map (\<lambda>(a, b). (x0 + word_of_int a, y0 + word_of_int b))
       [(x, y), (- x, y), (x, - y), (- x, - y), (y, x), (- y, x), (y, - x), (- y, - x)])"
    using p unfolding octant_px_of_int .
  then obtain a b where ab: "(a, b) \<in> set [(x, y), (- x, y), (x, - y), (- x, - y), (y, x), (- y, x), (y, - x), (- y, - x)]"
    and pe: "p = (x0 + word_of_int a, y0 + word_of_int b)"
    unfolding set_map image_iff Bex_def split_paired_Ex prod.case by blast
  have "a\<^sup>2 + b\<^sup>2 = x\<^sup>2 + y\<^sup>2"
    using ab by (simp only: set_simps insert_iff empty_iff prod.inject) auto
  then show ?thesis using ann pe by (intro exI [of _ a] exI [of _ b]) simp
qed

lemma span_px_cols:
  assumes "0 \<le> a" "a \<le> m"
  shows "{(x0 + word_of_int a, ya), (x0 - word_of_int a, ya), (x0 + word_of_int a, yb), (x0 - word_of_int a, yb)}
           \<subseteq> set (span_px (uint x0 - m) (uint x0 + m) ya yb)"
proof -
  have e: "x0 + word_of_int k = word_of_int (uint x0 + k)" "x0 - word_of_int k = word_of_int (uint x0 - k)" for k
    by (simp_all only: of_int_add of_int_diff) simp_all
  have m: "uint x0 - m \<le> uint x0 + a" "uint x0 + a \<le> uint x0 + m"
    "uint x0 - m \<le> uint x0 - a" "uint x0 - a \<le> uint x0 + m" using assms by simp_all
  show ?thesis
    using span_px_mem [OF m(1,2), of ya yb] span_px_mem [OF m(3,4), of ya yb] unfolding e [symmetric] by blast
qed

lemma circle_sub_disc: "set (circle_pixels x0 y0 r) \<subseteq> set (disc_pixels x0 y0 r)"
proof
  fix p assume "p \<in> set (circle_pixels x0 y0 r)"
  then obtain x y where xy: "(x, y) \<in> set (circle_ref 0 (uint r) (3 - 2 * uint r))"
    and p: "p \<in> set (octant_px x0 y0 (word_of_int x) (word_of_int y))"
    unfolding circle_pixels_def by auto
  note st = circle_inv_start [OF uint_ge_0, of r, THEN conjunct1]
    circle_inv_start [OF uint_ge_0, of r, THEN conjunct2]
  have x: "0 \<le> x" and y: "0 \<le> y"
    using circle_ref_annulus [OF st xy] by linarith+
  have "set (octant_px x0 y0 (word_of_int x) (word_of_int y)) \<subseteq>
      set (span_px (uint x0 - y) (uint x0 + y) (y0 + word_of_int x) (y0 - word_of_int x) @
           span_px (uint x0 - x) (uint x0 + x) (y0 + word_of_int y) (y0 - word_of_int y))"
    using span_px_cols [OF x order_refl, of x0 "y0 + word_of_int y" "y0 - word_of_int y"]
      span_px_cols [OF y order_refl, of x0 "y0 + word_of_int x" "y0 - word_of_int x"]
    unfolding octant_px_def set_append
    by (simp only: set_simps insert_subset Un_iff empty_subsetI simp_thms)
  moreover have "set (span_px (uint x0 - y) (uint x0 + y) (y0 + word_of_int x) (y0 - word_of_int x) @
           span_px (uint x0 - x) (uint x0 + x) (y0 + word_of_int y) (y0 - word_of_int y)) \<subseteq>
      set (disc_pixels x0 y0 r)"
    using xy unfolding disc_pixels_def by force
  ultimately show "p \<in> set (disc_pixels x0 y0 r)" using p by blast
qed

lemma fill_circle_pixels:
  assumes "unat r \<le> 8191" "unat x0 + unat r < 32767"
  shows "st7789_fill_circle x0 y0 r color s = Some (draw_pixels (disc_pixels x0 y0 r) color s)"
proof -
  have R: "uint r \<le> 8191" "uint x0 + uint r < 32767" using assms unfolding uint_nat by linarith+
  have R0: "0 \<le> uint r" by (rule uint_ge_0)
  have "circle_inv (uint r) 0 (uint r) (3 - 2 * uint r)" using R0 by (rule circle_inv_init)
  from fill_circle_loop_ref [OF this R R0, of y0 color s]
  have "fill_circle_loop x0 y0 color (word_of_int 0) (word_of_int (uint r)) (word_of_int (3 - 2 * uint r)) s =
      Some (draw_pixels (disc_pixels x0 y0 r) color s)"
    unfolding disc_pixels_def by simp
  then show ?thesis by (simp add: st7789_fill_circle_def)
qed

lemma pixel_changed:
  "fb (screen c0 (draw_pixels ps color s)) q \<noteq> fb (screen c0 s) q \<Longrightarrow>
   \<exists>p \<in> set ps. q = (unat (fst p), unat (snd p))"
  by (force simp: draw_pixels_fb split: if_splits)

lemma circle_pixels_zero: "circle_pixels x0 y0 0 = replicate 8 (x0, y0)"
proof -
  have "circle_ref 0 0 3 = [(0, 0)]" by (simp add: circle_ref.simps)
  then show ?thesis by (simp add: circle_pixels_def octant_px_def numeral_eq_Suc)
qed

lemma changed_pixel_in:
  assumes "fb (screen c0 (draw_pixels ps color s)) (unat a, unat b) \<noteq> fb (screen c0 s) (unat a, unat b)"
  shows "(a, b) \<in> set ps"
proof -
  obtain p where p: "p \<in> set ps" and e: "(unat a, unat b) = (unat (fst p), unat (snd p))"
    using pixel_changed [OF assms] by blast
  have "p = (a, b)" using e by (cases p) (simp add: word_unat_eq_iff)
  then show ?thesis using p by simp
qed

lemma fb_draw_pixels_at:
  "p \<in> set ps \<Longrightarrow> fb (screen c0 (draw_pixels ps color s)) (unat (fst p), unat (snd p)) = color"
  by (force simp: draw_pixels_fb)

section \<open>What the circle primitives draw\<close>

text \<open>
  C13.  For every radius up to 8191, \<open>st7789_draw_circle\<close> on its \<open>int16_t\<close>
  variables draws exactly the pixels of the exact midpoint algorithm on unbounded
  integers, in the same order: no intermediate value overflows.
\<close>
theorem st7789_draw_circle_exact:
  "unat r \<le> 8191 \<Longrightarrow> st7789_draw_circle x0 y0 r color s = Some (draw_pixels (circle_pixels x0 y0 r) color s)"
  by (rule draw_circle_pixels)

theorem st7789_draw_circle_exact_witness:
  "st7789_draw_circle 120 120 100 ST7789_RED st7789_state0 =
     Some (draw_pixels (circle_pixels 120 120 100) ST7789_RED st7789_state0)"
  by (rule st7789_draw_circle_exact) simp

text \<open>
  C14.  Every pixel \<open>st7789_draw_circle\<close> changes lies at an offset \<open>(a, b)\<close> from
  the centre (modulo \<open>2^16\<close>) with \<open>r^2 - 3r - 1 \<le> a^2 + b^2 \<le> r^2 + r\<close>, that is
  within about a pixel of the circle of radius \<open>r\<close>, for every radius up to 8191.
\<close>
theorem st7789_draw_circle_accurate:
  assumes "unat r \<le> 8191" "st7789_draw_circle x0 y0 r color s = Some s'"
    and "fb (screen c0 s') q \<noteq> fb (screen c0 s) q"
  shows "\<exists>a b. q = (unat (x0 + word_of_int a), unat (y0 + word_of_int b)) \<and>
           (uint r)\<^sup>2 - 3 * uint r - 1 \<le> a\<^sup>2 + b\<^sup>2 \<and> a\<^sup>2 + b\<^sup>2 \<le> (uint r)\<^sup>2 + uint r"
proof -
  have "s' = draw_pixels (circle_pixels x0 y0 r) color s"
    using assms(1,2) draw_circle_pixels by simp
  then obtain p where "p \<in> set (circle_pixels x0 y0 r)" "q = (unat (fst p), unat (snd p))"
    using pixel_changed assms(3) by blast
  then show ?thesis using circle_pixels_offsets by fastforce
qed


theorem st7789_draw_circle_accurate_witness:
  "\<exists>a b. (unat (10::u16), unat (10::u16)) = (unat (10 + word_of_int a :: u16), unat (10 + word_of_int b :: u16)) \<and>
     (uint (0::u16))\<^sup>2 - 3 * uint (0::u16) - 1 \<le> a\<^sup>2 + b\<^sup>2 \<and> a\<^sup>2 + b\<^sup>2 \<le> (uint (0::u16))\<^sup>2 + uint (0::u16)"
proof -
  have d: "st7789_draw_circle 10 10 0 ST7789_RED st7789_state0 =
      Some (draw_pixels (replicate 8 (10, 10)) ST7789_RED st7789_state0)"
    using draw_circle_pixels [of 0 10 10 ST7789_RED st7789_state0] by (simp add: circle_pixels_zero)
  have c: "fb (screen ctrl0 (draw_pixels (replicate 8 (10, 10)) ST7789_RED st7789_state0)) (unat (10::u16), unat (10::u16)) \<noteq>
      fb (screen ctrl0 st7789_state0) (unat (10::u16), unat (10::u16))"
    by (simp add: draw_pixels_fb) (simp add: ST7789_RED_def ctrl0_def st7789_state0_def screen_def)
  show ?thesis by (rule st7789_draw_circle_accurate [OF _ d c]) simp
qed

text \<open>
  C16.  With radius 0, \<open>st7789_draw_circle\<close> returns and changes exactly the centre
  pixel.
\<close>
theorem st7789_draw_circle_centre:
  "map_option (\<lambda>s'. fb (screen c0 s')) (st7789_draw_circle x0 y0 0 color s) =
     Some ((fb (screen c0 s))((unat x0, unat y0) := color))"
  using draw_circle_pixels [of 0 x0 y0 color s] by (auto simp: circle_pixels_zero draw_pixels_fb fun_eq_iff)

text \<open>
  C15.  The outline \<open>st7789_draw_circle\<close> draws is symmetric about the centre: with
  a pixel at offset \<open>(a, b)\<close> it also colours \<open>(-a, b)\<close>, \<open>(a, -b)\<close> and \<open>(b, a)\<close>,
  for every radius up to 8191.
\<close>
theorem st7789_draw_circle_symmetric:
  assumes "unat r \<le> 8191" "st7789_draw_circle x0 y0 r color s = Some s'"
    and "fb (screen c0 s') (unat (x0 + a), unat (y0 + b)) \<noteq> fb (screen c0 s) (unat (x0 + a), unat (y0 + b))"
  shows "fb (screen c0 s') (unat (x0 - a), unat (y0 + b)) = color \<and>
         fb (screen c0 s') (unat (x0 + a), unat (y0 - b)) = color \<and>
         fb (screen c0 s') (unat (x0 + b), unat (y0 + a)) = color"
proof -
  have s': "s' = draw_pixels (circle_pixels x0 y0 r) color s"
    using assms(1,2) draw_circle_pixels by simp
  then have "(x0 + a, y0 + b) \<in> set (circle_pixels x0 y0 r)"
    using assms(3) changed_pixel_in by blast
  then show ?thesis
    using circle_pixels_symmetric fb_draw_pixels_at [of _ "circle_pixels x0 y0 r" c0 color s] s'
    by fastforce
qed

theorem st7789_draw_circle_symmetric_witness:
  "fb (screen ctrl0 (draw_pixels (replicate 8 (10, 10)) ST7789_RED st7789_state0)) (unat (10 - 0 :: u16), unat (10 + 0 :: u16)) = ST7789_RED \<and>
   fb (screen ctrl0 (draw_pixels (replicate 8 (10, 10)) ST7789_RED st7789_state0)) (unat (10 + 0 :: u16), unat (10 - 0 :: u16)) = ST7789_RED \<and>
   fb (screen ctrl0 (draw_pixels (replicate 8 (10, 10)) ST7789_RED st7789_state0)) (unat (10 + 0 :: u16), unat (10 + 0 :: u16)) = ST7789_RED"
proof -
  have d: "st7789_draw_circle 10 10 0 ST7789_RED st7789_state0 =
      Some (draw_pixels (replicate 8 (10, 10)) ST7789_RED st7789_state0)"
    using draw_circle_pixels [of 0 10 10 ST7789_RED st7789_state0] by (simp add: circle_pixels_zero)
  have c: "fb (screen ctrl0 (draw_pixels (replicate 8 (10, 10)) ST7789_RED st7789_state0)) (unat (10 + 0 :: u16), unat (10 + 0 :: u16)) \<noteq>
      fb (screen ctrl0 st7789_state0) (unat (10 + 0 :: u16), unat (10 + 0 :: u16))"
    by (simp add: draw_pixels_fb) (simp add: ST7789_RED_def ctrl0_def st7789_state0_def screen_def)
  show ?thesis by (rule st7789_draw_circle_symmetric [OF _ d c]) simp
qed

text \<open>
  C17.  For every radius up to 8191 whose disc stays left of column 32767,
  \<open>st7789_fill_circle\<close> returns, having drawn the spans of the exact algorithm: for
  each visited \<open>(x, y)\<close>, rows \<open>y0 \<pm> x\<close> from \<open>x0 - y\<close> to \<open>x0 + y\<close> and rows
  \<open>y0 \<pm> y\<close> from \<open>x0 - x\<close> to \<open>x0 + x\<close>.
\<close>
theorem st7789_fill_circle_exact:
  "unat r \<le> 8191 \<Longrightarrow> unat x0 + unat r < 32767 \<Longrightarrow>
   st7789_fill_circle x0 y0 r color s = Some (draw_pixels (disc_pixels x0 y0 r) color s)"
  by (rule fill_circle_pixels)

theorem st7789_fill_circle_exact_witness:
  "st7789_fill_circle 120 120 100 ST7789_RED st7789_state0 =
     Some (draw_pixels (disc_pixels 120 120 100) ST7789_RED st7789_state0)"
  by (rule st7789_fill_circle_exact) simp_all

text \<open>
  C18.  The filled disc covers its outline: every pixel \<open>st7789_draw_circle\<close>
  changes, \<open>st7789_fill_circle\<close> with the same arguments colours.
\<close>
theorem st7789_fill_circle_covers_outline:
  assumes "unat r \<le> 8191" "unat x0 + unat r < 32767"
    and "st7789_draw_circle x0 y0 r color s = Some s1" "st7789_fill_circle x0 y0 r color s = Some s2"
    and "fb (screen c0 s1) q \<noteq> fb (screen c0 s) q"
  shows "fb (screen c0 s2) q = color"
proof -
  have s1: "s1 = draw_pixels (circle_pixels x0 y0 r) color s"
    using assms(1,3) draw_circle_pixels by simp
  have s2: "s2 = draw_pixels (disc_pixels x0 y0 r) color s"
    using assms(1,2,4) fill_circle_pixels by simp
  obtain p where "p \<in> set (circle_pixels x0 y0 r)" "q = (unat (fst p), unat (snd p))"
    using pixel_changed assms(5) s1 by blast
  then show ?thesis using circle_sub_disc s2 fb_draw_pixels_at by blast
qed

theorem st7789_fill_circle_covers_outline_witness:
  "fb (screen ctrl0 (draw_pixels (disc_pixels 10 10 0) ST7789_RED st7789_state0)) (unat (10::u16), unat (10::u16)) = ST7789_RED"
proof -
  have d: "st7789_draw_circle 10 10 0 ST7789_RED st7789_state0 =
      Some (draw_pixels (replicate 8 (10, 10)) ST7789_RED st7789_state0)"
    using draw_circle_pixels [of 0 10 10 ST7789_RED st7789_state0] by (simp add: circle_pixels_zero)
  have f: "st7789_fill_circle 10 10 0 ST7789_RED st7789_state0 =
      Some (draw_pixels (disc_pixels 10 10 0) ST7789_RED st7789_state0)"
    using fill_circle_pixels [of 0 10 10 ST7789_RED st7789_state0] by simp
  have c: "fb (screen ctrl0 (draw_pixels (replicate 8 (10, 10)) ST7789_RED st7789_state0)) (unat (10::u16), unat (10::u16)) \<noteq>
      fb (screen ctrl0 st7789_state0) (unat (10::u16), unat (10::u16))"
    by (simp add: draw_pixels_fb) (simp add: ST7789_RED_def ctrl0_def st7789_state0_def screen_def)
  show ?thesis by (rule st7789_fill_circle_covers_outline [OF _ _ d f c]) simp_all
qed

end
