(* ===== verification/Driver.thy ===== *)
theory Driver
  imports Init Mode Bitmap Midpoint
begin

text \<open>
  The public interface of \<open>st7789.h\<close> (lines 79--113) as a datatype of calls and a
  step function that runs one call of a client program on the driver's state, and
  a run of a whole call sequence.  \<open>st7789_draw_bitmap\<close>'s stack buffer is
  uninitialised in C; the call is run with a zeroed one, which by the bitmap lemmas
  does not change what is sent.  A circle call that never returns, or a bitmap call
  that would store past its buffer, makes the run \<open>None\<close>.  The lemmas show that
  whatever the circle loops return they reached by drawing pixels, and that a sequence
  of drawing calls leaves the panel's operating mode alone.
\<close>

section \<open>Calls and runs\<close>

datatype st7789_call =
    Call_Init
  | Call_Clear u16
  | Call_Fill_Rect u16 u16 u16 u16 u16
  | Call_Draw_Pixel u16 u16 u16
  | Call_Draw_HLine u16 u16 u16 u16
  | Call_Draw_VLine u16 u16 u16 u16
  | Call_Draw_Circle u16 u16 u16 u16
  | Call_Fill_Circle u16 u16 u16 u16
  | Call_Draw_Bitmap u16 u16 u16 u16 "nat \<Rightarrow> u16"
  | Call_Set_Rotation st7789_rotation_t
  | Call_Display_On bool
  | Call_Invert_Display bool

fun exec_call :: "(spi_dev_t \<Rightarrow> int) \<Rightarrow> st7789_call \<Rightarrow> st7789_state \<Rightarrow> st7789_state option" where
  "exec_call p Call_Init s = Some (snd (st7789_init p s))"
| "exec_call p (Call_Clear c) s = Some (st7789_clear c s)"
| "exec_call p (Call_Fill_Rect x y w h c) s = Some (st7789_fill_rect x y w h c s)"
| "exec_call p (Call_Draw_Pixel x y c) s = Some (st7789_draw_pixel x y c s)"
| "exec_call p (Call_Draw_HLine x y w c) s = Some (st7789_draw_hline x y w c s)"
| "exec_call p (Call_Draw_VLine x y h c) s = Some (st7789_draw_vline x y h c s)"
| "exec_call p (Call_Draw_Circle x0 y0 r c) s = st7789_draw_circle x0 y0 r c s"
| "exec_call p (Call_Fill_Circle x0 y0 r c) s = st7789_fill_circle x0 y0 r c s"
| "exec_call p (Call_Draw_Bitmap x y w h bm) s = st7789_draw_bitmap x y w h bm (replicate 2048 0) s"
| "exec_call p (Call_Set_Rotation r) s = Some (st7789_set_rotation r s)"
| "exec_call p (Call_Display_On b) s = Some (st7789_display_on b s)"
| "exec_call p (Call_Invert_Display b) s = Some (st7789_invert_display b s)"

fun run_calls :: "(spi_dev_t \<Rightarrow> int) \<Rightarrow> st7789_call list \<Rightarrow> st7789_state \<Rightarrow> st7789_state option" where
  "run_calls p [] s = Some s"
| "run_calls p (c # cs) s = Option.bind (exec_call p c s) (run_calls p cs)"

text \<open>The calls that only draw: they program a window and stream pixels.\<close>

fun is_drawing_call :: "st7789_call \<Rightarrow> bool" where
  "is_drawing_call Call_Init = False"
| "is_drawing_call (Call_Set_Rotation r) = False"
| "is_drawing_call (Call_Display_On b) = False"
| "is_drawing_call (Call_Invert_Display b) = False"
| "is_drawing_call c = True"

section \<open>Drawing leaves the panel mode alone\<close>

text \<open>Whatever the circle loops return, they got there by drawing pixels.\<close>

lemma draw_circle_loop_pixels:
  "draw_circle_loop x0 y0 c x y d s = Some s' \<Longrightarrow> \<exists>ps. s' = draw_pixels ps c s"
  apply (erule draw_circle_loop.raw_induct [rotated,
        where P = "\<lambda>x0 y0 c x y d s s'. \<exists>ps. s' = draw_pixels ps c s"])
  subgoal premises prems for loop x0 y0 c x y d s s'
  proof (cases "sint x \<le> sint y")
    case True
    obtain d' y' where n: "circle_next x y d = (d', y')" by (cases "circle_next x y d")
    have l: "loop x0 y0 c (x + 1) y' d' (draw_pixels (octant_px x0 y0 x y) c s) = Some s'"
      using prems(2) True n by (simp add: circle_octants_px)
    obtain ps where "s' = draw_pixels ps c (draw_pixels (octant_px x0 y0 x y) c s)"
      using prems(1) [OF l] by blast
    then show ?thesis by (metis draw_pixels_append)
  next
    case False
    then show ?thesis using prems(2) by (auto intro: exI [of _ "[]"])
  qed
  done

lemma fill_span_pixels:
  "fill_span i x0 y ya yb c s = Some s' \<Longrightarrow> \<exists>ps. s' = draw_pixels ps c s"
  apply (erule fill_span.raw_induct [rotated,
        where P = "\<lambda>i x0 y ya yb c s s'. \<exists>ps. s' = draw_pixels ps c s"])
  subgoal premises prems for span i x0 y ya yb c s s'
  proof (cases "sint i \<le> uint x0 + sint y")
    case True
    have l: "span (i + 1) x0 y ya yb c (draw_pixels [(i, ya), (i, yb)] c s) = Some s'"
      using prems(2) True by simp
    obtain ps where "s' = draw_pixels ps c (draw_pixels [(i, ya), (i, yb)] c s)"
      using prems(1) [OF l] by blast
    then show ?thesis by (metis draw_pixels_append)
  next
    case False
    then show ?thesis using prems(2) by (auto intro: exI [of _ "[]"])
  qed
  done

lemma fill_circle_loop_pixels:
  "fill_circle_loop x0 y0 c x y d s = Some s' \<Longrightarrow> \<exists>ps. s' = draw_pixels ps c s"
  apply (erule fill_circle_loop.raw_induct [rotated,
        where P = "\<lambda>x0 y0 c x y d s s'. \<exists>ps. s' = draw_pixels ps c s"])
  subgoal premises prems for loop x0 y0 c x y d s s'
  proof (cases "sint x \<le> sint y")
    case True
    obtain d' y' where n: "circle_next x y d = (d', y')" by (cases "circle_next x y d")
    obtain s1 s2 where s1: "fill_span (x0 - y) x0 y (y0 + x) (y0 - x) c s = Some s1"
      and s2: "fill_span (x0 - x) x0 x (y0 + y) (y0 - y) c s1 = Some s2"
      and l: "loop x0 y0 c (x + 1) y' d' s2 = Some s'"
      using prems(2) True n by (auto simp: bind_eq_Some_conv)
    obtain ps1 ps2 ps3 where "s1 = draw_pixels ps1 c s" "s2 = draw_pixels ps2 c s1"
      "s' = draw_pixels ps3 c s2"
      using fill_span_pixels [OF s1] fill_span_pixels [OF s2] prems(1) [OF l] by blast
    then show ?thesis by (metis draw_pixels_append)
  next
    case False
    then show ?thesis using prems(2) by (auto intro: exI [of _ "[]"])
  qed
  done

lemma circle_calls_pixels:
  "st7789_draw_circle x0 y0 r c s = Some s' \<Longrightarrow> \<exists>ps. s' = draw_pixels ps c s"
  "st7789_fill_circle x0 y0 r c s = Some s' \<Longrightarrow> \<exists>ps. s' = draw_pixels ps c s"
  by (simp_all add: st7789_draw_circle_def st7789_fill_circle_def draw_circle_loop_pixels
      fill_circle_loop_pixels)

lemma window_mode [simp]: "panel_mode (ctrl_run c (addr_window_ev d x0 y0 x1 y1)) = panel_mode c"
  by (simp add: ctrl_run_addr_window panel_mode_def)

lemma raster_mode:
  "panel_mode (screen c0 (st7789_fill_rect x y w h col s)) = panel_mode (screen c0 s)"
  "panel_mode (screen c0 (st7789_clear col s)) = panel_mode (screen c0 s)"
  "panel_mode (screen c0 (st7789_draw_pixel x y col s)) = panel_mode (screen c0 s)"
  "panel_mode (screen c0 (st7789_draw_hline x y w col s)) = panel_mode (screen c0 s)"
  "panel_mode (screen c0 (st7789_draw_vline x y h col s)) = panel_mode (screen c0 s)"
  by (simp_all add: trace_simps st7789_clear_def px_events_mode)

lemma bitmap_mode:
  "st7789_draw_bitmap x y w h bm (replicate 2048 0) s = Some s' \<Longrightarrow>
   panel_mode (screen c0 s') = panel_mode (screen c0 s)"
  by (auto simp: trace_simps px_events_mode)

lemma draw_pixels_mode: "panel_mode (screen c0 (draw_pixels ps col s)) = panel_mode (screen c0 s)"
proof (induction ps arbitrary: s)
  case Nil
  then show ?case by simp
next
  case (Cons p ps)
  then show ?case by (cases p) (simp add: raster_mode(3))
qed

lemma drawing_call_mode:
  "is_drawing_call c \<Longrightarrow> exec_call p c s = Some s' \<Longrightarrow> panel_mode (screen c0 s') = panel_mode (screen c0 s)"
  by (cases c) (auto simp: raster_mode draw_pixels_mode dest: circle_calls_pixels bitmap_mode)

text \<open>
  C22.  A sequence of drawing calls never changes the panel's operating mode (sleep,
  display, inversion, normal mode, backlight), whatever the arguments.
\<close>
theorem drawing_keeps_panel_mode:
  "list_all is_drawing_call cs \<Longrightarrow> run_calls p cs s = Some s' \<Longrightarrow>
   panel_mode (screen c0 s') = panel_mode (screen c0 s)"
proof (induction cs arbitrary: s)
  case Nil
  then show ?case by simp
next
  case (Cons c cs)
  then obtain s1 where s1: "exec_call p c s = Some s1" and r: "run_calls p cs s1 = Some s'"
    by (auto simp: bind_eq_Some_conv)
  then show ?case using Cons drawing_call_mode [OF _ s1] by simp
qed

theorem drawing_keeps_panel_mode_witness:
  "panel_mode (screen ctrl0 (st7789_draw_pixel 1 2 ST7789_WHITE (st7789_clear ST7789_RED st7789_state0))) =
     panel_mode (screen ctrl0 st7789_state0)"
  by (rule drawing_keeps_panel_mode [of "[Call_Clear ST7789_RED, Call_Draw_Pixel 1 2 ST7789_WHITE]" "\<lambda>_. 0"])
     simp_all

end
