(* ===== verification/Spec2Isabelle.thy ===== *)
theory Spec2Isabelle
  imports Driver
begin

text \<open>
  A verification library for the ST7789 display driver \<open>src/DRIVER/ST7789/st7789.c\<close>
  (with its header \<open>st7789.h\<close>).  The driver turns drawing calls into bytes on an SPI
  bus, a data/command (D/C) pin selecting whether each byte is a controller command or
  a parameter; every drawing call first programs the controller's addressing window and
  then streams two bytes per pixel, which the controller places row-major in the window.

  \<^bold>\<open>How the program is modelled.\<close>  The driver's module state is the static SPI
  handle \<open>st7789_spi\<close> and the trace of calls it has made into the platform shim
  (\<open>drv_gpio_*\<close>, \<open>drv_spi_*\<close>, \<open>aos_msleep\<close>, which are not in the repository and are
  modelled in \<open>Hal\<close> from spec section 6 as events appended to the trace).  Every C
  function becomes a HOL function on the record \<open>st7789_state\<close>, its statements a chain
  of \<open>let\<close>s.  Integer types are words: \<open>uint8_t\<close> is \<open>8 word\<close>, \<open>uint16_t\<close> and
  \<open>int16_t\<close> are \<open>16 word\<close> (the latter read with \<open>sint\<close>), \<open>uint32_t\<close> is
  \<open>32 word\<close>; C's conversions to narrower types are word wrap-around and its
  comparisons compare the \<open>int\<close> values.  Loops over unsigned counters are recursive
  functions with termination proofs (measure \<open>unat w - unat j\<close>); the two circle loops
  over \<open>int16_t\<close> counters, which need not end, are \<open>partial_function (option)\<close>,
  \<open>None\<close> standing for the run that never returns.

  \<^bold>\<open>The specification.\<close>  \<open>Controller\<close> models the ST7789 itself (spec sections 3
  and 4) as a deterministic machine over the trace: D/C level, current command and its
  parameters, window registers, write pointer, frame memory \<open>fb\<close>, orientation and
  mode flags.  \<open>screen c0 s\<close> is the controller, started in \<open>c0\<close>, after the trace of
  \<open>s\<close>.  Drawing properties are refinements: the frame memory after an operation is an
  abstract operation (\<open>fill_spec\<close>, \<open>bitmap_spec\<close>, a pixel update) applied to the
  frame memory before it.

  \<^bold>\<open>Theories.\<close>
  \<^item> \<open>Prelude\<close>: the C integer types, the big-endian byte split of a 16-bit value and
    its inverse, unsigned and signed 16-bit word arithmetic, row-major indexing.
  \<^item> \<open>Hal\<close>: the platform shim: devices, pins, the event type, the state record.
  \<^item> \<open>Encoder\<close> (\<open>st7789.c\<close> 13--69, macros of \<open>st7789.h\<close>): \<open>st7789_send_cmd\<close>,
    \<open>st7789_send_data\<close>, \<open>st7789_send_data16\<close>, \<open>st7789_send_data_block\<close>,
    \<open>st7789_delay_ms\<close>; \<open>wire\<close>, the bytes with their D/C level.
  \<^item> \<open>Controller\<close>: the abstract controller and the lemma that a pixel stream fills
    the window row-major from its pointer (\<open>stream_chunks\<close>).
  \<^item> \<open>Window\<close> (71--99): \<open>st7789_hard_reset\<close>, \<open>st7789_set_addr_window\<close> and the
    contract \<open>window_stream\<close> every drawing primitive relies on.
  \<^item> \<open>Init\<close> (101--168): \<open>st7789_init\<close>, both outcomes of \<open>drv_spi_init\<close>.
  \<^item> \<open>Raster\<close> (170--221): \<open>st7789_fill_rect\<close> (\<open>fill_rows\<close>, \<open>fill_cols\<close>),
    \<open>st7789_clear\<close>, \<open>st7789_draw_pixel\<close>, \<open>st7789_draw_hline\<close>, \<open>st7789_draw_vline\<close>.
  \<^item> \<open>Bitmap\<close> (278--302): \<open>st7789_draw_bitmap\<close> with its 2048-byte buffer, the chunk
    loop \<open>bitmap_chunks\<close> and the copy loop \<open>bitmap_fill\<close>.  A store into the buffer
    is checked (\<open>buf_set\<close>): past the end of the C array it is undefined behaviour
    and the model's value is \<open>None\<close>, so the three are option-valued and a theorem
    that the call returns \<open>Some\<close> says that no store leaves the buffer.
  \<^item> \<open>Mode\<close> (304--343): \<open>st7789_set_rotation\<close>, \<open>st7789_display_on\<close>,
    \<open>st7789_invert_display\<close>.
  \<^item> \<open>Circle\<close> (223--276): \<open>st7789_draw_circle\<close> (\<open>draw_circle_loop\<close>, the eight
    calls \<open>circle_octants\<close>, the midpoint step \<open>circle_next\<close>) and
    \<open>st7789_fill_circle\<close> (\<open>fill_circle_loop\<close>, the span loop \<open>fill_span\<close>), the exact
    algorithm \<open>circle_ref\<close> on unbounded integers, and when the loops return.
  \<^item> \<open>Midpoint\<close>: agreement of the word loops with \<open>circle_ref\<close> and what the two
    primitives draw.
  \<^item> \<open>Driver\<close> (\<open>st7789.h\<close> 79--113): the public interface as the datatype
    \<open>st7789_call\<close> with the dispatcher \<open>exec_call\<close>; a client program is a call list
    run by \<open>run_calls\<close>.  Its lemmas: drawing calls leave the panel mode alone;
    whatever the circle loops return was reached by drawing pixels (proved by the
    fixpoint induction \<open>raw_induct\<close> of their \<open>partial_function\<close>s).
  \<^item> This theory: properties of whole client programs (a complete
    init/clear/draw session).

  \<^bold>\<open>What is proved.\<close>  Each operation's exact events; refinement of
  \<open>st7789_fill_rect\<close>, \<open>st7789_draw_pixel\<close> and \<open>st7789_draw_bitmap\<close> against the
  controller; that \<open>st7789_draw_bitmap\<close> never stores past its buffer, sends each
  chunk's pixels big-endian with a length of at most the buffer's, and chunks the image
  in order; both outcomes of initialisation
  and the state it leaves; the orientation each rotation sets; that
  \<open>st7789_draw_circle\<close> always returns and \<open>st7789_fill_circle\<close> returns exactly when
  \<open>x0 + r < 32767\<close> or \<open>r \<ge> 32768\<close>; and, for radii up to 8191, that both circle
  primitives draw what the exact algorithm draws, the outline accurate to about a
  pixel, symmetric, and covered by the filled disc; that the line and pixel primitives
  send exactly what a degenerate \<open>st7789_fill_rect\<close> sends; the wire bytes of
  \<open>st7789_send_data16\<close> and \<open>st7789_set_addr_window\<close> and what the controller decodes
  from them; that drawing never changes the panel mode.

  \<^bold>\<open>Bounds.\<close>  8191 is the largest radius for which the invariant \<open>circle_inv\<close>
  (\<open>-4r \<le> d \<le> 4x + 3\<close> while \<open>x \<le> y\<close>) keeps \<open>d\<close> inside \<open>int16_t\<close>; beyond it
  the outline is not claimed (running both algorithms shows the first difference at
  \<open>r = 8346\<close>).  No fuel is used: termination is proved by a measure.

  \<^bold>\<open>Not modelled.\<close>  The \<open>printf\<close> of the failure path of \<open>st7789_init\<close> (console
  text, not display state); the shim's own behaviour beyond recording the calls; the
  panel's timing (the delays are recorded, not interpreted); the unused macros of
  \<open>st7789.h\<close> (\<open>NOP\<close>, the read, partial, scroll, tearing and idle commands, the
  \<open>MADCTL\<close> bits \<open>ML\<close>, \<open>BGR\<close> and \<open>MH\<close>, \<open>XSTART\<close> and \<open>YSTART\<close>).  The shim's
  \<open>drv_spi_send (dev, buf, len)\<close> records the first \<open>len\<close> bytes of \<open>buf\<close>: a
  C caller passing \<open>len\<close> beyond its buffer would over-read, which the model does not
  represent; for the one caller that sends from a fixed buffer,
  \<open>st7789_draw_bitmap\<close>, the length is proved within the buffer instead.
\<close>

section \<open>Properties of whole client programs\<close>

lemma init_screen:
  assumes "platform (st7789_dev (st7789_spi s)) = 0"
  shows "panel_mode (screen c0 (snd (st7789_init platform s))) = (False, True, True, True, True) \<and>
         fb (screen c0 (snd (st7789_init platform s))) = fb (screen c0 s)"
  using assms ctrl_run_init_ev [of "screen c0 s" "st7789_dev (st7789_spi s)"]
  by (simp add: st7789_init_result panel_mode_def Let_def)

text \<open>
  C23.  A whole session: when the platform accepts the device, initialising, clearing
  to red and setting pixel (0, 0) white leaves the panel awake, on, inverted, in normal
  mode with the backlight on, the 240 by 240 square red except for a white top-left
  pixel, and the rest of frame memory as it was.
\<close>
theorem st7789_session:
  assumes "platform (st7789_dev (st7789_spi s)) = 0"
    and "run_calls platform [Call_Init, Call_Clear ST7789_RED, Call_Draw_Pixel 0 0 ST7789_WHITE] s = Some s'"
  shows "panel_mode (screen c0 s') = (False, True, True, True, True) \<and>
         fb (screen c0 s') = (fill_spec 0 0 240 240 ST7789_RED (fb (screen c0 s)))((0, 0) := ST7789_WHITE)"
proof -
  let ?s1 = "snd (st7789_init platform s)"
  have s': "s' = st7789_draw_pixel 0 0 ST7789_WHITE (st7789_clear ST7789_RED ?s1)" using assms(2) by simp
  note i = init_screen [of platform s c0, OF assms(1)]
  show ?thesis
    using i unfolding s' by (simp add: raster_mode draw_pixel_fb clear_fb)
qed

theorem st7789_session_witness:
  "panel_mode (screen ctrl0 (st7789_draw_pixel 0 0 ST7789_WHITE (st7789_clear ST7789_RED (snd (st7789_init (\<lambda>_. 0) st7789_state0))))) =
     (False, True, True, True, True) \<and>
   fb (screen ctrl0 (st7789_draw_pixel 0 0 ST7789_WHITE (st7789_clear ST7789_RED (snd (st7789_init (\<lambda>_. 0) st7789_state0))))) =
     (fill_spec 0 0 240 240 ST7789_RED (fb (screen ctrl0 st7789_state0)))((0, 0) := ST7789_WHITE)"
  by (rule st7789_session [of "\<lambda>_. 0" st7789_state0]) simp_all

end
